theory Spec2Isabelle
  imports Main "HOL-Library.Char_ord" "HOL-Library.List_Lexorder" "HOL-Library.AList"
begin

section \<open>getoptx: a declarative command-line parser with subcommands\<close>

text \<open>
  A shallow embedding of the Go package \<^verbatim>\<open>getoptx\<close>. Go strings are byte sequences and
  are modelled as \<^typ>\<open>string\<close> (a list of 8-bit characters); \<^verbatim>\<open>len(s)\<close> is
  \<^term>\<open>length s\<close>, and \<^verbatim>\<open>s < t\<close> on strings is the byte-wise lexicographic order that
  \<^theory_text>\<open>List_Lexorder\<close> and \<^theory_text>\<open>Char_ord\<close> give to \<^typ>\<open>string\<close>. Go's \<^verbatim>\<open>int\<close> is
  modelled as \<^typ>\<open>int\<close>: the package only compares such values, it never computes
  with them, so no wrap-around can occur; \<^verbatim>\<open>math.MaxInt\<close> is the 64-bit value.
\<close>

subsection \<open>Errors, output and results\<close>

definition nl :: string where
  "nl = [CHR 0x0A]"

text \<open>
  Every \<^verbatim>\<open>errors.New\<close> value of the package is a constructor. \<open>ErrGetopt\<close> carries the
  message of an error returned by the underlying flat parser, and \<open>ErrWrapped\<close> is
  \<^verbatim>\<open>fmt.Errorf("%s: for command %s: %w", ...)\<close>: a prefix and the wrapped error.
\<close>

datatype error =
    ErrExpectedPointer
  | ErrExpectedPointerToStruct
  | ErrFieldWithoutDocumentation
  | ErrShortTagNotSingleByte
  | ErrPrivateField
  | ErrTooManyPositionalArguments
  | ErrTooFewPositionalArguments
  | ErrNoSuchSubcommand
  | ErrZeroLengthArgv
  | ErrExpectedSubcommandName
  | ErrGetopt string
  | ErrWrapped string error

fun Error :: "error \<Rightarrow> string" where
  "Error ErrExpectedPointer = ''expected a pointer''"
| "Error ErrExpectedPointerToStruct = ''expected a pointer to struct''"
| "Error ErrFieldWithoutDocumentation = ''there is a field without documentation''"
| "Error ErrShortTagNotSingleByte = ''the short tag's value must contain a single-byte string''"
| "Error ErrPrivateField = ''a field inside the structure is private''"
| "Error ErrTooManyPositionalArguments = ''too many positional arguments''"
| "Error ErrTooFewPositionalArguments = ''too few positional arguments''"
| "Error ErrNoSuchSubcommand = ''no such subcommand''"
| "Error ErrZeroLengthArgv = ''passed a zero length argv''"
| "Error ErrExpectedSubcommandName = ''expected subcommand name''"
| "Error (ErrGetopt msg) = msg"
| "Error (ErrWrapped prefix e) = prefix @ Error e"

text \<open>What is written to the two process streams, one event for each print call.\<close>

datatype event = Stdout string | Stderr string

subsection \<open>Option records as seen through reflection\<close>

text \<open>
  \<^verbatim>\<open>newParserWrapper\<close> inspects the \<^verbatim>\<open>flags interface{}\<close> value by reflection. Of a
  struct field it reads the name, the three tags (\<^verbatim>\<open>tag.Get\<close> returns the empty
  string for an absent tag), whether the field is exported (\<^verbatim>\<open>CanInterface\<close>), and
  whether the pointer to the field is a \<^verbatim>\<open>*Counter\<close>, a \<^verbatim>\<open>*bool\<close> or something else.
  A field reached through a pointer to its struct is always addressable, so the
  \<^verbatim>\<open>CanAddr\<close> test of the source never fails and has no branch here.
\<close>

datatype kind = KBool | KCounter | KOther

record field =
  Name :: string
  doc_tag :: string
  short_tag :: string
  required_tag :: string
  exported :: bool
  kind :: kind

text \<open>
  The dynamic type of the record behind the pointer: the two marker types of the
  package, or a caller's struct type, identified by its name.
\<close>

datatype gotype = SubcommandHelpT | HasPrintedHelpT | UserT string

datatype iface =
    NonPointer
  | PointerToNonStruct
  | PointerToStruct gotype "field list"

definition subcommandHelp :: iface where
  "subcommandHelp = PointerToStruct SubcommandHelpT []"

definition HasPrintedHelp :: iface where
  "HasPrintedHelp = PointerToStruct HasPrintedHelpT []"

text \<open>The type assertion \<^verbatim>\<open>sc.options.(*subcommandHelp)\<close> of \<^verbatim>\<open>Getopt\<close>.\<close>

fun is_subcommandHelp :: "iface \<Rightarrow> bool" where
  "is_subcommandHelp (PointerToStruct SubcommandHelpT fs) = True"
| "is_subcommandHelp v = False"

subsection \<open>The positional arguments checker\<close>

definition MaxInt :: int where
  "MaxInt = 9223372036854775807"

record positionalArgumentsChecker =
  minArgs :: int
  maxArgs :: int

definition newPositionalArgumentsChecker :: positionalArgumentsChecker where
  "newPositionalArgumentsChecker = \<lparr>minArgs = - 1, maxArgs = MaxInt\<rparr>"

subsection \<open>The option set of the flat parser and its wrapper\<close>

text \<open>
  An option registered in the \<^verbatim>\<open>getopt.Set\<close>: its long name, its short name as a rune
  (0 for none), whether it is a flag, whether it is mandatory, and the storage it is
  bound to: a field of the caller's record (by index) or the help cell of a node.
\<close>

datatype binding = FieldCell nat | HelpCell

record getopt_Option =
  long :: string
  short :: nat
  flag :: bool
  mandatory :: bool
  bound :: binding

definition RuneError :: nat where
  "RuneError = 0xFFFD"

text \<open>
  \<^verbatim>\<open>utf8.DecodeRune\<close> on a one-byte slice, the only call the package makes: an ASCII
  byte is its own rune, any other byte is not a complete encoding.
\<close>

definition DecodeRune1 :: "char \<Rightarrow> nat" where
  "DecodeRune1 c = (if of_char c < (0x80::nat) then of_char c else RuneError)"

text \<open>
  \<^verbatim>\<open>Option.ShortName()\<close>: the empty string when there is no short name, else the rune
  as a string. The runes that reach the set are ASCII, or \<open>RuneError\<close>, whose UTF-8
  encoding is the three bytes EF BF BD.
\<close>

definition ShortName :: "getopt_Option \<Rightarrow> string" where
  "ShortName o' =
     (if short o' = 0 then ''''
      else if short o' < 0x80 then [char_of (short o')]
      else [CHR 0xEF, CHR 0xBF, CHR 0xBD])"

definition LongName :: "getopt_Option \<Rightarrow> string" where
  "LongName o' = long o'"

record parserWrapper =
  set_options :: "getopt_Option list"
  set_program :: string
  set_parameters :: string
  set_args :: "string list"
  docs :: "(string \<times> string) list"
  pac :: positionalArgumentsChecker
  required :: "(string \<times> bool) list"

text \<open>\<^verbatim>\<open>Config\<close> values and their \<^verbatim>\<open>visit\<close> methods.\<close>

datatype Config =
    setProgramName string
  | setPositionalArgumentsPlaceholder string
  | minMaxPositionalArguments int int

definition SetProgramName :: "string \<Rightarrow> Config" where
  "SetProgramName name = setProgramName name"

definition SetPositionalArgumentsPlaceholder :: "string \<Rightarrow> Config" where
  "SetPositionalArgumentsPlaceholder name = setPositionalArgumentsPlaceholder name"

definition NoPositionalArguments :: Config where
  "NoPositionalArguments = minMaxPositionalArguments 0 0"

definition AtLeastOnePositionalArgument :: Config where
  "AtLeastOnePositionalArgument = minMaxPositionalArguments 1 MaxInt"

definition JustOnePositionalArgument :: Config where
  "JustOnePositionalArgument = minMaxPositionalArguments 1 1"

fun visit :: "Config \<Rightarrow> parserWrapper \<Rightarrow> parserWrapper" where
  "visit (setProgramName name) p = (if name \<noteq> '''' then p\<lparr>set_program := name\<rparr> else p)"
| "visit (setPositionalArgumentsPlaceholder name) p =
     (if name \<noteq> '''' then p\<lparr>set_parameters := name\<rparr> else p)"
| "visit (minMaxPositionalArguments lo hi) p = p\<lparr>pac := \<lparr>minArgs = lo, maxArgs = hi\<rparr>\<rparr>"

definition NArgs :: "parserWrapper \<Rightarrow> int" where
  "NArgs p = int (length (set_args p))"

definition Args :: "parserWrapper \<Rightarrow> string list" where
  "Args p = set_args p"

definition numOptions :: "parserWrapper \<Rightarrow> int" where
  "numOptions p = int (length (docs p))"

definition check :: "positionalArgumentsChecker \<Rightarrow> parserWrapper \<Rightarrow> error option" where
  "check pc p =
     (let count = NArgs p in
      if count < minArgs pc then Some ErrTooFewPositionalArguments
      else if count > maxArgs pc then Some ErrTooManyPositionalArguments
      else None)"

subsection \<open>External collaborators\<close>

text \<open>
  The package delegates to three libraries that are not part of it. Their functions
  are parameters of the model, collected in one record:
  \<^item> \<open>Set_Getopt\<close> is \<^verbatim>\<open>getopt.Set.Getopt(args, nil)\<close> of the flat parser: given the
    registered options and the argument vector (whose first element is the
    program name), it yields the value it wrote to the help cell, if it wrote one,
    and either the message of an error or the remaining positional arguments;
  \<^item> \<open>Set_VisitAll\<close> is the order in which \<^verbatim>\<open>getopt.Set.VisitAll\<close> enumerates the
    registered options;
  \<^item> \<open>ToKebab\<close> is \<^verbatim>\<open>strcase.ToKebab\<close>;
  \<^item> \<open>WrapString\<close> is \<^verbatim>\<open>wordwrap.WrapString\<close>.
\<close>

record ext =
  Set_Getopt :: "getopt_Option list \<Rightarrow> string list \<Rightarrow> bool option \<times> (string + string list)"
  Set_VisitAll :: "getopt_Option list \<Rightarrow> getopt_Option list"
  ToKebab :: "string \<Rightarrow> string"
  WrapString :: "string \<Rightarrow> nat \<Rightarrow> string"

subsection \<open>Building the option descriptors\<close>

text \<open>
  \<^verbatim>\<open>Set.FlagLong\<close> registers an option bound to a storage cell; a \<^verbatim>\<open>*bool\<close> makes a
  flag. \<^verbatim>\<open>SetFlag\<close> and \<^verbatim>\<open>Mandatory\<close> are the two option methods the package calls.
  The package itself never compares the names it registers, and it hands every
  documented, exported field to the library whatever its type: what the library
  does with a name that is already taken or with a type it does not support is
  not part of the package, and the model is of records whose fields the library
  registers.
\<close>

definition FlagLong :: "binding \<Rightarrow> kind \<Rightarrow> string \<Rightarrow> nat \<Rightarrow> getopt_Option" where
  "FlagLong b k name sh =
     \<lparr>long = name, short = sh, flag = (k = KBool), mandatory = False, bound = b\<rparr>"

definition SetFlag :: "getopt_Option \<Rightarrow> getopt_Option" where
  "SetFlag opt = opt\<lparr>flag := True\<rparr>"

definition Mandatory :: "getopt_Option \<Rightarrow> getopt_Option" where
  "Mandatory opt = opt\<lparr>mandatory := True\<rparr>"

text \<open>
  The loop over the fields of the struct (steps 2 to 8 of \<^verbatim>\<open>newParserWrapper\<close>). Its
  state is the option set, the \<^verbatim>\<open>docs\<close> map and the \<^verbatim>\<open>required\<close> map; \<open>idx\<close> is the
  index of the field at the head of the list.
\<close>

type_synonym loop_state =
  "getopt_Option list \<times> (string \<times> string) list \<times> (string \<times> bool) list"

fun fields_loop :: "ext \<Rightarrow> nat \<Rightarrow> field list \<Rightarrow> loop_state \<Rightarrow> error + loop_state" where
  "fields_loop X idx [] st = Inr st"
| "fields_loop X idx (f # fs) (opts, ds, req) =
     (let docstring = doc_tag f in
      if docstring = ''-'' then fields_loop X (Suc idx) fs (opts, ds, req)
      else if docstring = [] then Inl ErrFieldWithoutDocumentation
      else
        let shortName = short_tag f in
        if shortName \<noteq> [] \<and> length shortName \<noteq> 1 then Inl ErrShortTagNotSingleByte
        else
          let sh = (if shortName \<noteq> [] then DecodeRune1 (hd shortName) else 0);
              name = ToKebab X (Name f);
              ds' = AList.update name docstring ds
          in
          if \<not> exported f then Inl ErrPrivateField
          else
            let opt = FlagLong (FieldCell idx) (kind f) name sh;
                opt1 = (case kind f of KCounter \<Rightarrow> SetFlag opt | _ \<Rightarrow> opt)
            in
            if required_tag f = ''true''
            then fields_loop X (Suc idx) fs
                   (opts @ [Mandatory opt1], ds', AList.update name True req)
            else fields_loop X (Suc idx) fs (opts @ [opt1], ds', req))"

text \<open>
  \<^verbatim>\<open>getopt.New()\<close> starts with no option, an empty program name (the parser takes
  it from the argument vector) and the default parameters placeholder.
\<close>

definition newParserWrapper :: "ext \<Rightarrow> iface \<Rightarrow> Config list \<Rightarrow> error + parserWrapper" where
  "newParserWrapper X flags configs =
     (case flags of
        NonPointer \<Rightarrow> Inl ErrExpectedPointer
      | PointerToNonStruct \<Rightarrow> Inl ErrExpectedPointerToStruct
      | PointerToStruct ty fs \<Rightarrow>
          (case fields_loop X 0 fs ([], [], []) of
             Inl e \<Rightarrow> Inl e
           | Inr (opts, ds, req) \<Rightarrow>
               Inr (fold visit configs
                 \<lparr>set_options = opts, set_program = [],
                  set_parameters = ''[parameters ...]'', set_args = [],
                  docs = ds, pac = newPositionalArgumentsChecker, required = req\<rparr>)))"

subsection \<open>Help injection\<close>

text \<open>
  \<^verbatim>\<open>maybeAddHelpFlags\<close>: the closure passed to \<^verbatim>\<open>VisitAll\<close> accumulates \<open>found\<close> over
  the options; when nothing is found, \<^verbatim>\<open>-h/--help\<close> is registered, bound to the
  help cell, and documented. The result pairs the wrapper with the returned bool.
\<close>

definition help_found :: "ext \<Rightarrow> parserWrapper \<Rightarrow> bool" where
  "help_found X p =
     fold (\<lambda>o' found. found \<or> ShortName o' = ''h'' \<or> LongName o' = ''help'')
       (Set_VisitAll X (set_options p)) False"

definition maybeAddHelpFlags :: "ext \<Rightarrow> parserWrapper \<Rightarrow> parserWrapper \<times> bool" where
  "maybeAddHelpFlags X p =
     (if help_found X p then (p, False)
      else
        (p\<lparr>set_options := set_options p @ [FlagLong HelpCell KBool ''help'' (of_char CHR ''h'')],
           docs := AList.update ''help'' ''Prints this help message'' (docs p)\<rparr>,
         True))"

subsection \<open>Parsing with the wrapper\<close>

text \<open>
  \<^verbatim>\<open>parserWrapper.Getopt\<close>: run the flat parser, then the wrapper's own positional
  arguments checker. The first component is what the flat parser wrote to the help
  cell; it is kept also when parsing fails, since the write has happened by then.
\<close>

definition parserWrapper_Getopt ::
  "ext \<Rightarrow> parserWrapper \<Rightarrow> string list \<Rightarrow> bool option \<times> parserWrapper \<times> error option" where
  "parserWrapper_Getopt X p args =
     (case Set_Getopt X (set_options p) args of
        (w, Inl msg) \<Rightarrow> (w, p, Some (ErrGetopt msg))
      | (w, Inr rest) \<Rightarrow>
          (let p' = p\<lparr>set_args := rest\<rparr> in (w, p', check (pac p') p')))"

subsection \<open>The tree of commands\<close>

text \<open>
  \<^verbatim>\<open>CommandParser\<close>: a node owns its children, so the tree is a datatype. The \<open>help'\<close>
  field (\<^verbatim>\<open>help\<close> in the source, a reserved word here) is the cell that \<^verbatim>\<open>-h/--help\<close>
  is bound to; parsing writes to it, so the functions that parse return the node as
  they leave it. The \<^verbatim>\<open>pac\<close> field of the source is \<open>cmd_pac\<close>, since the wrapper has
  a field of that name too.
\<close>

datatype CommandParser = CommandParser
  (description: string)
  (help': bool)
  (name: string)
  (options: iface)
  (cmd_pac: positionalArgumentsChecker)
  (subcommands: "CommandParser list")

record SelectedCommand =
  selected_options :: iface
  selected_args :: "string list"

text \<open>
  What a call leaves behind: a panic, an error return (with a \<^verbatim>\<open>nil\<close> selected
  command), or a selected command (with a \<^verbatim>\<open>nil\<close> error).
\<close>

datatype outcome = Panic string | Failed error | Selected SelectedCommand

definition set_help :: "bool \<Rightarrow> CommandParser \<Rightarrow> CommandParser" where
  "set_help b p =
     CommandParser (description p) b (name p) (options p) (cmd_pac p) (subcommands p)"

definition set_pac :: "positionalArgumentsChecker \<Rightarrow> CommandParser \<Rightarrow> CommandParser" where
  "set_pac pc p =
     CommandParser (description p) (help' p) (name p) (options p) pc (subcommands p)"

definition set_subcommands :: "CommandParser list \<Rightarrow> CommandParser \<Rightarrow> CommandParser" where
  "set_subcommands scs p =
     CommandParser (description p) (help' p) (name p) (options p) (cmd_pac p) scs"

text \<open>
  \<^verbatim>\<open>Subcommand\<close>: \<^verbatim>\<open>sort.SliceStable\<close> with \<^verbatim>\<open>subcommands[i].name < subcommands[j].name\<close>
  is the stable sort by name, which is what \<^const>\<open>sort_key\<close> computes.
\<close>

definition Subcommand ::
  "string \<Rightarrow> string \<Rightarrow> iface \<Rightarrow> CommandParser list \<Rightarrow> CommandParser" where
  "Subcommand nm descr opts scs =
     CommandParser descr False nm opts newPositionalArgumentsChecker (sort_key name scs)"

text \<open>
  \<^verbatim>\<open>LeafSubcommand\<close>: a piece of config other than the positional arguments bounds
  is only logged, which leaves the returned node as it is.
\<close>

fun leaf_config :: "Config \<Rightarrow> CommandParser \<Rightarrow> CommandParser" where
  "leaf_config (minMaxPositionalArguments lo hi) p = set_pac \<lparr>minArgs = lo, maxArgs = hi\<rparr> p"
| "leaf_config entry p = p"

definition LeafSubcommand ::
  "string \<Rightarrow> string \<Rightarrow> iface \<Rightarrow> Config list \<Rightarrow> CommandParser" where
  "LeafSubcommand nm descr opts config = fold leaf_config config (Subcommand nm descr opts [])"

fun containsHelp :: "CommandParser list \<Rightarrow> bool" where
  "containsHelp [] = False"
| "containsHelp (sc # scs) = (if name sc = ''help'' then True else containsHelp scs)"

text \<open>\<^verbatim>\<open>Command\<close>; \<open>program\<close> is \<^verbatim>\<open>os.Args[0]\<close>.\<close>

definition Command ::
  "string \<Rightarrow> string \<Rightarrow> iface \<Rightarrow> CommandParser list \<Rightarrow> CommandParser" where
  "Command program descr opts scs =
     (let scs' =
        (if \<not> containsHelp scs
         then scs @ [LeafSubcommand ''help'' ''Prints generic or command-specific help''
                       subcommandHelp []]
         else scs)
      in Subcommand program descr opts scs')"

definition newSelectedCommand :: "CommandParser \<Rightarrow> string list \<Rightarrow> SelectedCommand" where
  "newSelectedCommand p argv = \<lparr>selected_options = options p, selected_args = argv\<rparr>"

subsection \<open>Strings\<close>

text \<open>\<^verbatim>\<open>strings.Join\<close>, \<^verbatim>\<open>strings.HasSuffix\<close> with a one-byte suffix, and \<^verbatim>\<open>strings.Split\<close>
  on a one-byte separator (which yields one piece for the empty string).\<close>

fun Join :: "string list \<Rightarrow> string \<Rightarrow> string" where
  "Join [] sep = []"
| "Join [s] sep = s"
| "Join (s # t # ss) sep = s @ sep @ Join (t # ss) sep"

definition HasSuffix1 :: "string \<Rightarrow> char \<Rightarrow> bool" where
  "HasSuffix1 s c = (s \<noteq> [] \<and> last s = c)"

fun Split1 :: "string \<Rightarrow> char \<Rightarrow> string list" where
  "Split1 [] c = [[]]"
| "Split1 (x # xs) c =
     (if x = c then [] # Split1 xs c
      else (case Split1 xs c of
              [] \<Rightarrow> [[x]]
            | piece # pieces \<Rightarrow> (x # piece) # pieces))"

definition squote :: string where
  "squote = [CHR 0x27]"

subsection \<open>Rendering help\<close>

definition fullcmd :: "CommandParser list \<Rightarrow> string" where
  "fullcmd chain = Join (map name chain) '' ''"

definition positionalArgumentsPlaceholder :: "CommandParser \<Rightarrow> string" where
  "positionalArgumentsPlaceholder p =
     (if length (subcommands p) > 0 then '' <subcommand> [...]''
      else if maxArgs (cmd_pac p) > 1 then '' <argument> [<argument> ...]''
      else if maxArgs (cmd_pac p) > 0 then '' <argument>''
      else [])"

definition hasOptions :: "ext \<Rightarrow> CommandParser \<Rightarrow> bool" where
  "hasOptions X p =
     (case newParserWrapper X (options p) [] of
        Inl err \<Rightarrow> False
      | Inr parser \<Rightarrow> numOptions parser > 0)"

text \<open>\<^verbatim>\<open>printBriefUsage\<close> builds one string and prints it with one call.\<close>

definition printBriefUsage :: "ext \<Rightarrow> CommandParser \<Rightarrow> CommandParser list \<Rightarrow> string list" where
  "printBriefUsage X p chain =
     [nl @ ''Usage:''
      @ concat (map (\<lambda>entry. '' '' @ name entry
                       @ (if hasOptions X entry then '' [options]'' else [])) chain)
      @ positionalArgumentsPlaceholder p @ nl]"

definition period_terminated :: "string \<Rightarrow> string" where
  "period_terminated d = (if \<not> HasSuffix1 d CHR ''.'' then d @ ''.'' else d)"

definition printSubcommandDescription :: "ext \<Rightarrow> CommandParser \<Rightarrow> string list" where
  "printSubcommandDescription X p =
     [nl]
     @ map (\<lambda>line. line @ nl)
         (Split1 (WrapString X (period_terminated (description p)) 72) CHR 0x0A)
     @ [nl]"

text \<open>The lookup \<^verbatim>\<open>m[key]\<close> in a Go map yields the zero value for a missing key.\<close>

definition lookup_string :: "(string \<times> string) list \<Rightarrow> string \<Rightarrow> string" where
  "lookup_string m k = (case map_of m k of None \<Rightarrow> [] | Some v \<Rightarrow> v)"

definition lookup_bool :: "(string \<times> bool) list \<Rightarrow> string \<Rightarrow> bool" where
  "lookup_bool m k = (case map_of m k of None \<Rightarrow> False | Some v \<Rightarrow> v)"

definition print_option :: "ext \<Rightarrow> parserWrapper \<Rightarrow> getopt_Option \<Rightarrow> string list" where
  "print_option X p o' =
     [if ShortName o' \<noteq> [] then ''  -'' @ ShortName o' @ '', --'' @ LongName o'
      else ''      --'' @ LongName o']
     @ (if \<not> flag o' then ['' value''] else [])
     @ [nl]
     @ (let d = period_terminated (lookup_string (docs p) (LongName o'));
            d' = (if lookup_bool (required p) (LongName o')
                  then d @ '' This option is mandatory.'' else d)
        in map (\<lambda>line. ''             '' @ line @ nl) (Split1 (WrapString X d' 64) CHR 0x0A))
     @ [nl]"

definition parserWrapper_printOptions :: "ext \<Rightarrow> parserWrapper \<Rightarrow> string list" where
  "parserWrapper_printOptions X p =
     [''Options:'' @ nl @ nl]
     @ concat (map (print_option X p) (Set_VisitAll X (set_options p)))"

definition print_entry_options :: "ext \<Rightarrow> CommandParser \<Rightarrow> string list" where
  "print_entry_options X entry =
     (case newParserWrapper X (options entry) [] of
        Inl err \<Rightarrow> []
      | Inr parser \<Rightarrow>
          if numOptions parser \<le> 0 then []
          else [''Options for '' @ name entry @ '':'' @ nl @ nl]
               @ parserWrapper_printOptions X parser)"

definition printOptions :: "ext \<Rightarrow> CommandParser \<Rightarrow> CommandParser list \<Rightarrow> string list" where
  "printOptions X p chain = concat (map (print_entry_options X) chain)"

definition printSingleSubcommand :: "ext \<Rightarrow> string \<Rightarrow> string list \<Rightarrow> string list" where
  "printSingleSubcommand X d names =
     [''  '' @ Join names '' '' @ nl]
     @ map (\<lambda>line. ''             '' @ line @ nl)
         (Split1 (WrapString X (period_terminated d) 64) CHR 0x0A)
     @ [nl]"

text \<open>
  \<^verbatim>\<open>printSubcommands\<close>: the header is printed at the top of the recursion only; a
  child with children of its own is listed through them, any other child by
  itself.
\<close>

fun printSubcommands :: "ext \<Rightarrow> CommandParser \<Rightarrow> string list \<Rightarrow> string list"
  and print_children :: "ext \<Rightarrow> CommandParser list \<Rightarrow> string list \<Rightarrow> string list" where
  "printSubcommands X (CommandParser d h n opts pc scs) names =
     (if length scs > 0
      then (if length names \<le> 0 then [''Subcommands:'' @ nl @ nl] else [])
           @ print_children X scs names
      else [])"
| "print_children X [] names = []"
| "print_children X (sc # scs) names =
     (let newnames = names @ [name sc] in
      (if length (subcommands sc) > 0 then printSubcommands X sc newnames
       else printSingleSubcommand X (description sc) newnames)
      @ print_children X scs names)"

definition printHelp ::
  "ext \<Rightarrow> CommandParser \<Rightarrow> parserWrapper \<Rightarrow> CommandParser list \<Rightarrow> string list" where
  "printHelp X p parser chain =
     printBriefUsage X p chain
     @ printSubcommandDescription X p
     @ printOptions X p chain
     @ printSubcommands X p []"

subsection \<open>Resolution\<close>

text \<open>
  \<^verbatim>\<open>CommandParser.newParserWrapper\<close>: build the wrapper for the node's record with the
  node's placeholder and the full command as program name, then inject help.
\<close>

definition CommandParser_newParserWrapper ::
  "ext \<Rightarrow> CommandParser \<Rightarrow> CommandParser list \<Rightarrow> (error + parserWrapper) \<times> string" where
  "CommandParser_newParserWrapper X p chain =
     (let fc = fullcmd chain;
          config = [SetPositionalArgumentsPlaceholder (positionalArgumentsPlaceholder p),
                    SetProgramName fc]
      in case newParserWrapper X (options p) config of
           Inl err \<Rightarrow> (Inl err, fc)
         | Inr parser \<Rightarrow> (Inr (fst (maybeAddHelpFlags X parser)), fc))"

text \<open>
  The help cell of the node after parsing: the flat parser can only have written
  to it when an option bound to it is registered.
\<close>

definition help_after :: "CommandParser \<Rightarrow> parserWrapper \<Rightarrow> bool option \<Rightarrow> bool" where
  "help_after p parser w =
     (case w of
        None \<Rightarrow> help' p
      | Some b \<Rightarrow> if list_ex (\<lambda>o'. bound o' = HelpCell) (set_options parser) then b else help' p)"

definition printed_help :: SelectedCommand where
  "printed_help = \<lparr>selected_options = HasPrintedHelp, selected_args = []\<rparr>"

text \<open>
  \<^verbatim>\<open>getoptall\<close>, with the loop of its step 6 as \<open>dispatch\<close>: \<open>None\<close> when no child
  has the name, else the children with the selected one as the recursive call left
  it. The chain holds the nodes as they were when they were entered; only their
  names and records are read from it.
\<close>

fun getoptall ::
    "ext \<Rightarrow> CommandParser \<Rightarrow> CommandParser list \<Rightarrow> string list
      \<Rightarrow> CommandParser \<times> event list \<times> outcome"
  and dispatch ::
    "ext \<Rightarrow> CommandParser list \<Rightarrow> CommandParser list \<Rightarrow> string \<Rightarrow> string list
      \<Rightarrow> (CommandParser list \<times> event list \<times> outcome) option" where
  "getoptall X (CommandParser d h n opts pc scs) chain argv =
     (let p = CommandParser d h n opts pc scs in
      if length chain < 1 then (p, [], Panic ''called with zero length chain'')
      else
        (let cmd = name (hd chain) in
         (case CommandParser_newParserWrapper X p chain of
            (Inl err, fc) \<Rightarrow>
              (p, [Stderr (cmd @ '': internal error: '' @ Error err @ nl)], Failed err)
          | (Inr parser0, fc) \<Rightarrow>
              (case parserWrapper_Getopt X parser0 argv of
                 (w, parser, res) \<Rightarrow>
                   (let p1 = set_help (help_after p parser w) p in
                    (case res of
                       Some err \<Rightarrow>
                         (p1,
                          [Stderr (cmd @ '': '' @ Error err @ ''. See '' @ squote @ fc
                                   @ '' --help'' @ squote @ ''.'' @ nl)],
                          Failed err)
                     | None \<Rightarrow>
                         (if help' p1
                          then (p1, map Stdout (printHelp X p1 parser chain),
                                Selected printed_help)
                          else if length scs \<le> 0
                          then (case check pc parser of
                                  Some err \<Rightarrow>
                                    (p1, [],
                                     Failed (ErrWrapped (cmd @ '': for command '' @ n @ '': '')
                                               err))
                                | None \<Rightarrow>
                                    (p1, [], Selected (newSelectedCommand p1 (Args parser))))
                          else if NArgs parser \<le> 0
                          then (if length chain < 2
                                then (p1, map Stdout (printHelp X p1 parser chain),
                                      Selected printed_help)
                                else (p1,
                                      [Stderr (cmd @ '': expected subcommand name. See ''
                                               @ squote @ fc @ '' --help'' @ squote @ ''.''
                                               @ nl)],
                                      Failed ErrExpectedSubcommandName))
                          else
                            (let subcmd = hd (Args parser) in
                             (case dispatch X scs chain subcmd (Args parser) of
                                Some (scs', evs, r) \<Rightarrow> (set_subcommands scs' p1, evs, r)
                              | None \<Rightarrow>
                                  (p1,
                                   [Stderr (cmd @ '': no such subcommand: '' @ squote @ subcmd
                                            @ squote @ ''. See '' @ squote @ fc @ '' --help''
                                            @ squote @ ''.'' @ nl)],
                                   Failed ErrNoSuchSubcommand))))))))))"
| "dispatch X [] chain subcmd argv = None"
| "dispatch X (sc # rest) chain subcmd argv =
     (if subcmd \<noteq> name sc
      then (case dispatch X rest chain subcmd argv of
              None \<Rightarrow> None
            | Some (rest', evs, r) \<Rightarrow> Some (sc # rest', evs, r))
      else (case getoptall X sc (chain @ [sc]) argv of
              (sc', evs, r) \<Rightarrow> Some (sc' # rest, evs, r)))"

text \<open>
  \<^verbatim>\<open>Getopt\<close> calls itself on the rewritten argument vector when the internal help
  subcommand was selected. Nothing in the code bounds that recursion, so the
  function is partial: \<open>None\<close> stands for a call that does not return. A returning
  call yields the tree as it leaves it, what it printed, and its outcome; what the
  first pass printed comes before what the second pass prints (\<open>after_events\<close>).
\<close>

definition after_events ::
  "event list \<Rightarrow> CommandParser \<times> event list \<times> outcome
    \<Rightarrow> (CommandParser \<times> event list \<times> outcome) option" where
  "after_events evs res = (case res of (p, evs', r) \<Rightarrow> Some (p, evs @ evs', r))"

partial_function (option) Getopt ::
  "ext \<Rightarrow> CommandParser \<Rightarrow> string list \<Rightarrow> (CommandParser \<times> event list \<times> outcome) option" where
  "Getopt X p argv =
     (if length argv < 1 then Some (p, [], Failed ErrZeroLengthArgv)
      else
        case getoptall X p [p] argv of
          (p', evs, Selected sc) \<Rightarrow>
            if is_subcommandHelp (selected_options sc)
            then
              (let v = ([hd argv] @ selected_args sc) @ [''--help''] in
               Option.bind (Getopt X p' v) (after_events evs))
            else Some (p', evs, Selected sc)
        | (p', evs, r) \<Rightarrow> Some (p', evs, r))"

declare Getopt.simps [code]

subsection \<open>Notions used to state the properties\<close>

text \<open>
  The flat parser enumerates exactly the options that were registered: the contract
  of \<^verbatim>\<open>VisitAll\<close> that \<^verbatim>\<open>maybeAddHelpFlags\<close> relies on.
\<close>

definition visits_all :: "ext \<Rightarrow> bool" where
  "visits_all X = (\<forall>os. set (Set_VisitAll X os) = set os)"

text \<open>The option that help injection registers.\<close>

definition help_option :: getopt_Option where
  "help_option = \<lparr>long = ''help'', short = 104, flag = True, mandatory = False, bound = HelpCell\<rparr>"

text \<open>
  The number of characters of a tag, following the spec's words (a short-name tag
  "must decode to exactly one character"): the number of UTF-8 encoded runes, as
  \<^verbatim>\<open>utf8.RuneCountInString\<close> counts them. A byte that does not start a well-formed
  encoding counts as one character.
\<close>

definition in_range :: "nat \<Rightarrow> nat \<Rightarrow> char \<Rightarrow> bool" where
  "in_range lo hi c = (lo \<le> of_char c \<and> of_char c \<le> hi)"

definition rune_width :: "string \<Rightarrow> nat" where
  "rune_width s =
     (case s of
        [] \<Rightarrow> 0
      | c0 # r \<Rightarrow>
          (let b0 = (of_char c0 :: nat) in
           if b0 < 0x80 then 1
           else if 0xC2 \<le> b0 \<and> b0 \<le> 0xDF
           then (case r of
                   c1 # r1 \<Rightarrow> if in_range 0x80 0xBF c1 then 2 else 1
                 | [] \<Rightarrow> 1)
           else if 0xE0 \<le> b0 \<and> b0 \<le> 0xEF
           then (case r of
                   c1 # c2 # r2 \<Rightarrow>
                     if in_range (if b0 = 0xE0 then 0xA0 else 0x80)
                                 (if b0 = 0xED then 0x9F else 0xBF) c1
                        \<and> in_range 0x80 0xBF c2
                     then 3 else 1
                 | _ \<Rightarrow> 1)
           else if 0xF0 \<le> b0 \<and> b0 \<le> 0xF4
           then (case r of
                   c1 # c2 # c3 # r3 \<Rightarrow>
                     if in_range (if b0 = 0xF0 then 0x90 else 0x80)
                                 (if b0 = 0xF4 then 0x8F else 0xBF) c1
                        \<and> in_range 0x80 0xBF c2 \<and> in_range 0x80 0xBF c3
                     then 4 else 1
                 | _ \<Rightarrow> 1)
           else 1))"

function RuneCountInString :: "string \<Rightarrow> nat" where
  "RuneCountInString [] = 0"
| "RuneCountInString (c # cs) = Suc (RuneCountInString (drop (rune_width (c # cs) - 1) cs))"
  by pat_completeness auto
termination
  by (relation "measure length") auto

text \<open>
  The entries that \<^verbatim>\<open>printSubcommands\<close> lists, in the order it lists them: the
  names path and the description that each call of \<^verbatim>\<open>printSingleSubcommand\<close> gets.
\<close>

fun entries :: "CommandParser \<Rightarrow> string list \<Rightarrow> (string list \<times> string) list"
  and child_entries :: "CommandParser list \<Rightarrow> string list \<Rightarrow> (string list \<times> string) list" where
  "entries (CommandParser d h n opts pc scs) names = child_entries scs names"
| "child_entries [] names = []"
| "child_entries (sc # scs) names =
     (let newnames = names @ [name sc] in
      (if length (subcommands sc) > 0 then entries sc newnames
       else [(newnames, description sc)])
      @ child_entries scs names)"

text \<open>
  The name, at the level below a node visited with the path \<open>names\<close>, of each entry
  listed for that node: the child of the node that the entry is listed under.
\<close>

definition level_names :: "CommandParser \<Rightarrow> string list \<Rightarrow> string list" where
  "level_names p names = map (\<lambda>e. fst e ! length names) (entries p names)"

text \<open>All the nodes of a tree, and the trees whose every node has its children sorted by name.\<close>

fun nodes :: "CommandParser \<Rightarrow> CommandParser list" where
  "nodes (CommandParser d h n opts pc scs) =
     CommandParser d h n opts pc scs # concat (map nodes scs)"

fun sorted_tree :: "CommandParser \<Rightarrow> bool" where
  "sorted_tree (CommandParser d h n opts pc scs) =
     (sorted (map name scs) \<and> list_all sorted_tree scs)"

text \<open>
  The wrapper that a node builds for a chain, when building succeeds, and what
  parsing an argument vector with it yields.
\<close>

definition built :: "ext \<Rightarrow> CommandParser \<Rightarrow> CommandParser list \<Rightarrow> parserWrapper" where
  "built X p chain = projr (fst (CommandParser_newParserWrapper X p chain))"

definition parsed ::
  "ext \<Rightarrow> CommandParser \<Rightarrow> CommandParser list \<Rightarrow> string list
    \<Rightarrow> bool option \<times> parserWrapper \<times> error option" where
  "parsed X p chain argv = parserWrapper_Getopt X (built X p chain) argv"

text \<open>The leaf that \<^verbatim>\<open>Command\<close> registers for the internal help subcommand.\<close>

definition help_leaf :: CommandParser where
  "help_leaf = LeafSubcommand ''help'' ''Prints generic or command-specific help''
                 subcommandHelp []"

text \<open>
  The contract of the flat parser under which resolution terminates: the positional
  arguments it returns are a suffix of the arguments after the program name. And
  the shape of a tree: the tree with its help cells cleared, which is what
  resolution never changes.
\<close>

definition leaves_suffix :: "ext \<Rightarrow> bool" where
  "leaves_suffix X =
     (\<forall>opts argv w rest. Set_Getopt X opts argv = (w, Inr rest) \<longrightarrow> (\<exists>pre. tl argv = pre @ rest))"

fun shape :: "CommandParser \<Rightarrow> CommandParser" where
  "shape (CommandParser d h n opts pc scs) = CommandParser d False n opts pc (map shape scs)"

subsection \<open>A reference flat parser\<close>

text \<open>
  Modelled from the spec: the Flat Option Parser (component 1 of the spec's system
  overview: it "consumes recognized flags, writes results into bound storage
  locations, and returns the remaining (positional) arguments or a syntax error")
  and the two text libraries are external collaborators, not code of this package,
  and the properties below hold for any of them. The definitions of this subsection
  give one instance in the POSIX style of the library the package uses, to run the
  model on concrete command lines. Scanning skips the program name and stops at
  the first argument that is empty or does not begin with a dash; \<^verbatim>\<open>--\<close> ends the
  options; \<^verbatim>\<open>--name\<close> and \<^verbatim>\<open>-c\<close> select a registered option, which consumes the next
  argument as its value unless it is a flag; mandatory options are checked at the
  end.
\<close>

definition operand :: "string \<Rightarrow> bool" where
  "operand a = (a = [] \<or> hd a \<noteq> CHR ''-'')"

definition find_option :: "getopt_Option list \<Rightarrow> string \<Rightarrow> getopt_Option option" where
  "find_option opts a =
     (if take 2 a = ''--'' then find (\<lambda>o'. long o' = drop 2 a) opts
      else if length a = 2 then find (\<lambda>o'. ShortName o' = drop 1 a) opts
      else None)"

definition ref_finish ::
  "getopt_Option list \<Rightarrow> bool option \<Rightarrow> string list \<Rightarrow> string list
    \<Rightarrow> bool option \<times> (string + string list)" where
  "ref_finish opts w seen rest =
     (case find (\<lambda>o'. mandatory o' \<and> long o' \<notin> set seen) opts of
        Some o' \<Rightarrow> (w, Inl (''option --'' @ long o' @ '' is mandatory''))
      | None \<Rightarrow> (w, Inr rest))"

fun ref_scan ::
  "getopt_Option list \<Rightarrow> string list \<Rightarrow> bool option \<Rightarrow> string list
    \<Rightarrow> bool option \<times> (string + string list)" where
  "ref_scan opts [] w seen = ref_finish opts w seen []"
| "ref_scan opts (a # rest) w seen =
     (if operand a then ref_finish opts w seen (a # rest)
      else if a = ''--'' then ref_finish opts w seen rest
      else
        case find_option opts a of
          None \<Rightarrow> (w, Inl (''unknown option: '' @ a))
        | Some o' \<Rightarrow>
            (let w' = (if bound o' = HelpCell then Some True else w) in
             if flag o' then ref_scan opts rest w' (long o' # seen)
             else (case rest of
                     [] \<Rightarrow> (w, Inl (''missing parameter for '' @ a))
                   | v # rest' \<Rightarrow> ref_scan opts rest' w' (long o' # seen))))"

definition ref_Getopt ::
  "getopt_Option list \<Rightarrow> string list \<Rightarrow> bool option \<times> (string + string list)" where
  "ref_Getopt opts argv =
     (case argv of
        [] \<Rightarrow> ref_finish opts None [] []
      | prog # rest \<Rightarrow> ref_scan opts rest None [])"

definition is_upper :: "char \<Rightarrow> bool" where
  "is_upper c = (65 \<le> (of_char c :: nat) \<and> (of_char c :: nat) \<le> 90)"

fun ref_kebab :: "bool \<Rightarrow> string \<Rightarrow> string" where
  "ref_kebab first [] = []"
| "ref_kebab first (c # cs) =
     (if is_upper c
      then (if first then [] else ''-'') @ [char_of (of_char c + (32::nat))] @ ref_kebab False cs
      else c # ref_kebab False cs)"

definition ref_ext :: ext where
  "ref_ext =
     \<lparr>Set_Getopt = ref_Getopt, Set_VisitAll = (\<lambda>os. os),
      ToKebab = ref_kebab True, WrapString = (\<lambda>s lim. s)\<rparr>"

subsection \<open>Example records and command trees\<close>

definition ce_two_faults :: "field list" where
  "ce_two_faults =
     [\<lparr>Name = ''Verbose'', doc_tag = ''be verbose'', short_tag = ''vv'', required_tag = [],
       exported = True, kind = KBool\<rparr>,
      \<lparr>Name = ''Input'', doc_tag = [], short_tag = [], required_tag = [],
       exported = True, kind = KOther\<rparr>]"

definition ce_accent :: "field list" where
  "ce_accent =
     [\<lparr>Name = ''Verbose'', doc_tag = ''be verbose'', short_tag = [CHR 0xC3, CHR 0xA9],
       required_tag = [], exported = True, kind = KBool\<rparr>]"

definition ex_fields :: "field list" where
  "ex_fields =
     [\<lparr>Name = ''Batch'', doc_tag = ''emit JSON messages'', short_tag = ''b'', required_tag = [],
       exported = True, kind = KBool\<rparr>,
      \<lparr>Name = ''Run'', doc_tag = ''-'', short_tag = [], required_tag = [],
       exported = True, kind = KOther\<rparr>]"

definition ex_undocumented :: field where
  "ex_undocumented =
     \<lparr>Name = ''Logfile'', doc_tag = [], short_tag = ''L'', required_tag = [],
      exported = True, kind = KOther\<rparr>"

definition ex_verbose :: field where
  "ex_verbose =
     \<lparr>Name = ''Verbose'', doc_tag = ''run in verbose mode'', short_tag = ''v'',
      required_tag = [], exported = True, kind = KBool\<rparr>"

definition ex_parser :: parserWrapper where
  "ex_parser =
     \<lparr>set_options = [], set_program = ''prog'', set_parameters = ''[parameters ...]'',
      set_args = [''a'', ''b''], docs = [], pac = newPositionalArgumentsChecker, required = []\<rparr>"

definition ex_own_help :: parserWrapper where
  "ex_own_help =
     \<lparr>set_options = [\<lparr>long = ''usage'', short = 104, flag = True, mandatory = False,
                       bound = FieldCell 0\<rparr>],
      set_program = ''prog'', set_parameters = ''[parameters ...]'',
      set_args = [], docs = [(''usage'', ''shows the usage'')],
      pac = newPositionalArgumentsChecker, required = []\<rparr>"

text \<open>The command tree of the package documentation, reduced to what the examples use.\<close>

definition ex_global :: iface where
  "ex_global = PointerToStruct (UserT ''GlobalOptions'') [ex_verbose]"

definition ex_websites :: CommandParser where
  "ex_websites =
     LeafSubcommand ''websites'' ''Tests websites for censorship''
       (PointerToStruct (UserT ''WebsitesOptions'')
          [\<lparr>Name = ''ForceHTTP3'', doc_tag = ''forces using HTTP3'', short_tag = ''3'',
            required_tag = [], exported = True, kind = KBool\<rparr>])
       [NoPositionalArguments]"

definition ex_urlgetter :: CommandParser where
  "ex_urlgetter =
     LeafSubcommand ''urlgetter'' ''Swiss-knife measurements tool''
       (PointerToStruct (UserT ''URLGetterOptions'')
          [\<lparr>Name = ''SNI'', doc_tag = ''forces using a specific SNI'', short_tag = [],
            required_tag = [], exported = True, kind = KOther\<rparr>])
       [JustOnePositionalArgument]"

definition ex_run :: CommandParser where
  "ex_run =
     Subcommand ''run'' ''Runs network measurements''
       (PointerToStruct (UserT ''RunOptions'')
          [\<lparr>Name = ''Input'', doc_tag = ''add URL to measure'', short_tag = [],
            required_tag = [], exported = True, kind = KOther\<rparr>])
       [ex_websites, ex_urlgetter]"

definition ex_list :: CommandParser where
  "ex_list =
     LeafSubcommand ''list'' ''Lists network measurements''
       (PointerToStruct (UserT ''ListOptions'') []) []"

definition ex_cli :: CommandParser where
  "ex_cli = Command ''prog'' ''Network measurement tool'' ex_global [ex_run, ex_list]"


text \<open>
  The example tree as an earlier call leaves it: after \<^verbatim>\<open>prog run --help\<close>, after
  \<^verbatim>\<open>prog run urlgetter --help\<close> and after \<^verbatim>\<open>prog --help\<close>, with the help cell of the
  node that printed its help set.
\<close>

definition ce_served_run :: CommandParser where
  "ce_served_run =
     Command ''prog'' ''Network measurement tool'' ex_global [set_help True ex_run, ex_list]"

definition ce_served_urlgetter :: CommandParser where
  "ce_served_urlgetter =
     Command ''prog'' ''Network measurement tool'' ex_global
       [set_subcommands [set_help True ex_urlgetter, ex_websites] ex_run, ex_list]"

definition ce_served_root :: CommandParser where
  "ce_served_root = set_help True ex_cli"

section \<open>Properties\<close>

subsection \<open>Positional arguments, the empty vector, help injection\<close>

lemma fold_or: "fold (\<lambda>x found. found \<or> P x) xs b = (b \<or> (\<exists>x\<in>set xs. P x))"
  by (induction xs arbitrary: b) auto

lemma help_found_iff:
  "visits_all X \<Longrightarrow>
   help_found X p = (\<exists>o'\<in>set (set_options p). ShortName o' = ''h'' \<or> LongName o' = ''help'')"
  unfolding help_found_def visits_all_def by (simp add: fold_or)

lemma FlagLong_help: "FlagLong HelpCell KBool ''help'' (of_char CHR ''h'') = help_option"
  by (simp add: FlagLong_def help_option_def)

lemma FlagLong_help': "FlagLong HelpCell KBool ''help'' 104 = help_option"
  by (simp add: FlagLong_def help_option_def)

lemma LongName_help_option: "LongName help_option = ''help''"
  by (simp add: LongName_def help_option_def)

lemma lookup_update: "lookup_string (AList.update k v m) k = v"
  by (simp add: lookup_string_def update_conv')

text \<open>
  Claim C4. For a checker with bounds \<open>minArgs\<close> and \<open>maxArgs\<close> and a count \<open>n\<close> of
  positional arguments (\<open>NArgs\<close> of the parser, never negative), \<open>check\<close> returns the
  too-few error exactly when \<open>n < minArgs\<close>, the too-many error exactly when
  \<open>n > maxArgs\<close>, and no error otherwise. The too-few test comes first, so the
  second equivalence is the one that needs the invariant of a positional policy,
  \<open>minArgs \<le> maxArgs\<close>, which the default and the three presets all satisfy (the
  last conjunct); without it, the too-many error is returned exactly when
  \<open>n > maxArgs\<close> and not \<open>n < minArgs\<close>. The default checker (\<open>minArgs = -1\<close>,
  \<open>maxArgs = MaxInt\<close>) accepts every count a Go \<^verbatim>\<open>int\<close> can hold; it differs from
  the none-allowed checker \<open>{0, 0}\<close>, which rejects every positive count.
\<close>

theorem check_bounds:
  "(check pc p = Some ErrTooFewPositionalArguments \<longleftrightarrow> NArgs p < minArgs pc)
   \<and> (check pc p = Some ErrTooManyPositionalArguments
        \<longleftrightarrow> \<not> NArgs p < minArgs pc \<and> NArgs p > maxArgs pc)
   \<and> (minArgs pc \<le> maxArgs pc \<longrightarrow>
        (check pc p = Some ErrTooManyPositionalArguments \<longleftrightarrow> NArgs p > maxArgs pc))
   \<and> (check pc p = None \<longleftrightarrow> minArgs pc \<le> NArgs p \<and> NArgs p \<le> maxArgs pc)
   \<and> 0 \<le> NArgs p
   \<and> (NArgs p \<le> MaxInt \<longrightarrow> check newPositionalArgumentsChecker p = None)
   \<and> newPositionalArgumentsChecker \<noteq> \<lparr>minArgs = 0, maxArgs = 0\<rparr>
   \<and> (0 < NArgs p \<longrightarrow>
        check \<lparr>minArgs = 0, maxArgs = 0\<rparr> p = Some ErrTooManyPositionalArguments)
   \<and> (pc = newPositionalArgumentsChecker \<or> pc = pac (visit NoPositionalArguments q)
        \<or> pc = pac (visit AtLeastOnePositionalArgument q)
        \<or> pc = pac (visit JustOnePositionalArgument q)
        \<longrightarrow> minArgs pc \<le> maxArgs pc)"
  by (auto simp: check_def Let_def NArgs_def newPositionalArgumentsChecker_def MaxInt_def
      NoPositionalArguments_def AtLeastOnePositionalArgument_def JustOnePositionalArgument_def)

theorem check_bounds_witness:
  "minArgs \<lparr>minArgs = 1, maxArgs = 1\<rparr> \<le> maxArgs \<lparr>minArgs = 1, maxArgs = 1\<rparr>
   \<and> maxArgs \<lparr>minArgs = 1, maxArgs = 1\<rparr> < NArgs ex_parser
   \<and> check \<lparr>minArgs = 1, maxArgs = 1\<rparr> ex_parser = Some ErrTooManyPositionalArguments
   \<and> NArgs ex_parser \<le> MaxInt
   \<and> check newPositionalArgumentsChecker ex_parser = None
   \<and> 0 < NArgs ex_parser
   \<and> check \<lparr>minArgs = 0, maxArgs = 0\<rparr> ex_parser = Some ErrTooManyPositionalArguments
   \<and> pac (visit JustOnePositionalArgument ex_parser) = \<lparr>minArgs = 1, maxArgs = 1\<rparr>"
  using check_bounds [of "\<lparr>minArgs = 1, maxArgs = 1\<rparr>" ex_parser ex_parser]
  by (simp add: NArgs_def ex_parser_def MaxInt_def JustOnePositionalArgument_def)

text \<open>
  Claim C10. On the empty argument vector \<open>Getopt\<close> returns: it selects no command,
  prints nothing, leaves the tree as it is, and fails with the error whose message
  is "passed a zero length argv".
\<close>

theorem Getopt_zero_length_argv:
  "Getopt X p [] = Some (p, [], Failed ErrZeroLengthArgv)
   \<and> Error ErrZeroLengthArgv = ''passed a zero length argv''"
  by (subst Getopt.simps) simp

lemma ShortName_help_option: "ShortName help_option = ''h''"
  by code_simp

lemma maybeAddHelpFlags_found:
  "help_found X p \<Longrightarrow> maybeAddHelpFlags X p = (p, False)"
  by (simp add: maybeAddHelpFlags_def)

lemma maybeAddHelpFlags_not_found:
  "\<not> help_found X p \<Longrightarrow>
   maybeAddHelpFlags X p =
     (p\<lparr>set_options := set_options p @ [help_option],
        docs := AList.update ''help'' ''Prints this help message'' (docs p)\<rparr>, True)"
  by (simp add: maybeAddHelpFlags_def FlagLong_help')

text \<open>
  Claim C9. Given that the flat parser enumerates exactly its registered options,
  help injection registers the synthesized option (long name \<open>help\<close>, short name
  \<open>h\<close>, bound to the help cell, documented "Prints this help message") if and only
  if no registered option has short name \<open>h\<close> or long name \<open>help\<close>. When one has, the
  wrapper is left as it is. Injecting twice is injecting once: the second call
  finds the option of the first and changes nothing.
\<close>

theorem maybeAddHelpFlags_iff:
  assumes "visits_all X"
  shows "(snd (maybeAddHelpFlags X p)
            \<longleftrightarrow> \<not> (\<exists>o'\<in>set (set_options p). ShortName o' = ''h'' \<or> LongName o' = ''help''))
       \<and> ((\<exists>o'\<in>set (set_options p). ShortName o' = ''h'' \<or> LongName o' = ''help'')
            \<longrightarrow> fst (maybeAddHelpFlags X p) = p)
       \<and> (\<not> (\<exists>o'\<in>set (set_options p). ShortName o' = ''h'' \<or> LongName o' = ''help'')
            \<longrightarrow> fst (maybeAddHelpFlags X p)
                  = p\<lparr>set_options := set_options p @ [help_option],
                       docs := AList.update ''help'' ''Prints this help message'' (docs p)\<rparr>
              \<and> lookup_string (docs (fst (maybeAddHelpFlags X p))) ''help''
                  = ''Prints this help message'')
       \<and> bound help_option = HelpCell \<and> ShortName help_option = ''h''
       \<and> LongName help_option = ''help''
       \<and> maybeAddHelpFlags X (fst (maybeAddHelpFlags X p)) = (fst (maybeAddHelpFlags X p), False)"
proof (cases "help_found X p")
  have b: "bound help_option = HelpCell"
    by (simp add: help_option_def)
  case True
  then show ?thesis
    using assms help_found_iff [OF assms, of p] b
    by (simp add: maybeAddHelpFlags_found ShortName_help_option LongName_help_option)
next
  case False
  let ?q = "p\<lparr>set_options := set_options p @ [help_option],
               docs := AList.update ''help'' ''Prints this help message'' (docs p)\<rparr>"
  have "help_found X ?q"
    using assms by (simp add: help_found_iff LongName_help_option)
  then have again: "maybeAddHelpFlags X ?q = (?q, False)"
    by (rule maybeAddHelpFlags_found)
  have b: "bound help_option = HelpCell"
    by (simp add: help_option_def)
  show ?thesis
    using False help_found_iff [OF assms, of p] again b
    by (simp add: maybeAddHelpFlags_not_found ShortName_help_option LongName_help_option
        lookup_update)
qed

lemma visits_all_ref_ext: "visits_all ref_ext"
  by (simp add: visits_all_def ref_ext_def)

theorem maybeAddHelpFlags_iff_witness:
  "visits_all ref_ext
   \<and> snd (maybeAddHelpFlags ref_ext ex_parser)
   \<and> set_options (fst (maybeAddHelpFlags ref_ext ex_parser)) = [help_option]
   \<and> \<not> snd (maybeAddHelpFlags ref_ext ex_own_help)
   \<and> fst (maybeAddHelpFlags ref_ext ex_own_help) = ex_own_help"
proof -
  have none: "\<not> (\<exists>o'\<in>set (set_options ex_parser). ShortName o' = ''h'' \<or> LongName o' = ''help'')"
    by (simp add: ex_parser_def)
  have "ShortName \<lparr>long = ''usage'', short = 104, flag = True, mandatory = False,
                   bound = FieldCell 0\<rparr> = ''h''"
    by code_simp
  then have own: "\<exists>o'\<in>set (set_options ex_own_help). ShortName o' = ''h'' \<or> LongName o' = ''help''"
    by (simp add: ex_own_help_def)
  show ?thesis
    using maybeAddHelpFlags_iff [OF visits_all_ref_ext, of ex_parser]
      maybeAddHelpFlags_iff [OF visits_all_ref_ext, of ex_own_help]
      none own visits_all_ref_ext
    by (simp add: ex_parser_def)
qed

subsection \<open>Building the option descriptors\<close>

lemma fields_loop_append:
  "fields_loop X idx (xs @ ys) st =
     (case fields_loop X idx xs st of
        Inl e \<Rightarrow> Inl e
      | Inr st1 \<Rightarrow> fields_loop X (idx + length xs) ys st1)"
proof (induction xs arbitrary: idx st)
  case Nil
  show ?case by simp
next
  case (Cons f fs)
  obtain opts ds req where st: "st = (opts, ds, req)"
    by (cases st) auto
  have len: "idx + length (f # fs) = Suc idx + length fs" by simp
  show ?case
    unfolding st len by (simp add: Let_def Cons.IH)
qed

lemma fields_loop_undocumented:
  "doc_tag f = [] \<Longrightarrow> fields_loop X idx (f # fs) st = Inl ErrFieldWithoutDocumentation"
  by (cases st) (simp add: Let_def)

lemma fields_loop_excluded:
  "doc_tag f = ''-'' \<Longrightarrow> fields_loop X idx (f # fs) st = fields_loop X (Suc idx) fs st"
  by (cases st) (simp add: Let_def)

lemma fields_loop_short_tag:
  "doc_tag f \<noteq> ''-'' \<Longrightarrow> doc_tag f \<noteq> [] \<Longrightarrow> short_tag f \<noteq> [] \<Longrightarrow>
   length (short_tag f) \<noteq> 1 \<Longrightarrow>
   fields_loop X idx (f # fs) st = Inl ErrShortTagNotSingleByte"
  by (cases st) (simp add: Let_def)

lemma fields_loop_fails:
  "f \<in> set fs \<Longrightarrow> doc_tag f = [] \<Longrightarrow> \<exists>e. fields_loop X idx fs st = Inl e"
proof (induction fs arbitrary: idx st)
  case Nil
  then show ?case by simp
next
  case (Cons g gs)
  obtain opts ds req where st: "st = (opts, ds, req)"
    by (cases st) auto
  show ?case
  proof (cases "g = f")
    case True
    with Cons.prems show ?thesis
      by (simp add: fields_loop_undocumented)
  next
    case False
    with Cons.prems have "f \<in> set gs" by simp
    from Cons.IH [OF this Cons.prems(2)] show ?thesis
      unfolding st by (simp add: Let_def)
  qed
qed

lemma newParserWrapper_fields:
  "newParserWrapper X (PointerToStruct ty fs) cfg = Inl e
     \<longleftrightarrow> fields_loop X 0 fs ([], [], []) = Inl e"
  by (auto simp: newParserWrapper_def split: sum.splits)

text \<open>
  Claim C7 (amended). A record with a field whose documentation tag is empty is
  never accepted: building the descriptors fails. The error is the one of the first
  field that is rejected, so it is the missing documentation error when the fields
  before the undocumented one are all accepted. A field documented as \<open>-\<close> is
  skipped: the loop goes on from the state it had, with no descriptor added and no
  error.
\<close>

theorem newParserWrapper_undocumented:
  "((\<exists>f\<in>set fs. doc_tag f = [])
       \<longrightarrow> (\<exists>e. newParserWrapper X (PointerToStruct ty fs) cfg = Inl e))
   \<and> (fields_loop X 0 pre ([], [], []) = Inr st \<and> doc_tag f = []
       \<longrightarrow> newParserWrapper X (PointerToStruct ty (pre @ f # post)) cfg
             = Inl ErrFieldWithoutDocumentation)
   \<and> (doc_tag g = ''-''
       \<longrightarrow> fields_loop X idx (g # post) st = fields_loop X (Suc idx) post st
           \<and> fields_loop X idx [g] st = Inr st)"
proof (intro conjI impI)
  assume "\<exists>f\<in>set fs. doc_tag f = []"
  then obtain f where "f \<in> set fs" "doc_tag f = []" by blast
  from fields_loop_fails [OF this]
  show "\<exists>e. newParserWrapper X (PointerToStruct ty fs) cfg = Inl e"
    by (simp add: newParserWrapper_fields)
next
  assume "fields_loop X 0 pre ([], [], []) = Inr st \<and> doc_tag f = []"
  then show "newParserWrapper X (PointerToStruct ty (pre @ f # post)) cfg
             = Inl ErrFieldWithoutDocumentation"
    by (simp add: newParserWrapper_fields fields_loop_append fields_loop_undocumented)
next
  assume "doc_tag g = ''-''"
  then show "fields_loop X idx (g # post) st = fields_loop X (Suc idx) post st"
    by (rule fields_loop_excluded)
next
  assume "doc_tag g = ''-''"
  then show "fields_loop X idx [g] st = Inr st"
    by (simp add: fields_loop_excluded)
qed

theorem newParserWrapper_undocumented_witness:
  "(\<exists>e. newParserWrapper ref_ext (PointerToStruct (UserT ''CLI'') (ex_fields @ [ex_undocumented])) []
          = Inl e)
   \<and> newParserWrapper ref_ext (PointerToStruct (UserT ''CLI'') (ex_fields @ ex_undocumented # [ex_verbose])) []
       = Inl ErrFieldWithoutDocumentation
   \<and> fields_loop ref_ext 1 [ex_fields ! 1]
         ([FlagLong (FieldCell 0) KBool ''batch'' 98], [(''batch'', ''emit JSON messages'')], [])
       = Inr ([FlagLong (FieldCell 0) KBool ''batch'' 98],
              [(''batch'', ''emit JSON messages'')], [])"
proof -
  have a: "\<exists>f\<in>set (ex_fields @ [ex_undocumented]). doc_tag f = []"
    by (simp add: ex_undocumented_def)
  have b: "fields_loop ref_ext 0 ex_fields ([], [], [])
             = Inr ([FlagLong (FieldCell 0) KBool ''batch'' 98],
                    [(''batch'', ''emit JSON messages'')], [])"
    by code_simp
  have c: "doc_tag ex_undocumented = []"
    by (simp add: ex_undocumented_def)
  have d: "doc_tag (ex_fields ! 1) = ''-''"
    by (simp add: ex_fields_def)
  show ?thesis
    using newParserWrapper_undocumented
      [where fs = "ex_fields @ [ex_undocumented]" and X = ref_ext and ty = "UserT ''CLI''"
         and cfg = "[]" and pre = ex_fields
         and st = "([FlagLong (FieldCell 0) KBool ''batch'' 98],
                    [(''batch'', ''emit JSON messages'')], [])"
         and f = ex_undocumented and post = "[ex_verbose]" and g = "ex_fields ! 1" and idx = 1]
      a b c d
    by simp
qed

text \<open>
  The claim as stated promises the missing documentation error for every record
  with an undocumented field. In this record the first field has a two-byte short
  tag and the second has no documentation: building fails on the first.
\<close>

theorem undocumented_counterexample:
  "doc_tag (ce_two_faults ! 1) = [] \<and> doc_tag (ce_two_faults ! 1) \<noteq> ''-''
   \<and> newParserWrapper ref_ext (PointerToStruct (UserT ''CLI'') ce_two_faults) []
       = Inl ErrShortTagNotSingleByte"
  by (simp add: ce_two_faults_def newParserWrapper_def Let_def)

lemma fields_loop_single_byte:
  "doc_tag f \<noteq> ''-'' \<Longrightarrow> doc_tag f \<noteq> [] \<Longrightarrow> length (short_tag f) = 1 \<Longrightarrow>
   fields_loop X idx [f] (opts, ds, req) =
     (if \<not> exported f then Inl ErrPrivateField
      else
        let opt = FlagLong (FieldCell idx) (kind f) (ToKebab X (Name f))
                    (DecodeRune1 (hd (short_tag f)));
            opt1 = (case kind f of KCounter \<Rightarrow> SetFlag opt | _ \<Rightarrow> opt);
            ds' = AList.update (ToKebab X (Name f)) (doc_tag f) ds
        in if required_tag f = ''true''
           then Inr (opts @ [Mandatory opt1], ds',
                     AList.update (ToKebab X (Name f)) True req)
           else Inr (opts @ [opt1], ds', req))"
  by (auto simp: Let_def)

lemma RuneCountInString_single: "length s = 1 \<Longrightarrow> RuneCountInString s = 1"
  by (cases s) auto

lemma set_options_fold_visit: "set_options (fold visit cfg q) = set_options q"
proof (induction cfg arbitrary: q)
  case Nil
  show ?case by simp
next
  case (Cons c cs)
  show ?case by (cases c) (simp_all add: Cons.IH)
qed

lemma short_option1:
  "short (case k of KCounter \<Rightarrow> SetFlag (FlagLong b k nm sh) | _ \<Rightarrow> FlagLong b k nm sh) = sh"
  by (cases k) (simp_all add: SetFlag_def FlagLong_def)

lemma fields_loop_short_tag_split:
  "fields_loop X idx fs st = Inl ErrShortTagNotSingleByte \<Longrightarrow>
   \<exists>pre f post st'. fs = pre @ f # post \<and> fields_loop X idx pre st = Inr st'
      \<and> doc_tag f \<noteq> ''-'' \<and> doc_tag f \<noteq> [] \<and> short_tag f \<noteq> [] \<and> length (short_tag f) \<noteq> 1"
proof (induction fs arbitrary: idx st)
  case Nil
  then show ?case by simp
next
  case (Cons g gs)
  obtain opts ds req where st: "st = (opts, ds, req)"
    by (cases st) auto
  show ?case
  proof (cases "doc_tag g \<noteq> ''-'' \<and> doc_tag g \<noteq> [] \<and> short_tag g \<noteq> []
                 \<and> length (short_tag g) \<noteq> 1")
    case True
    have "g # gs = [] @ g # gs \<and> fields_loop X idx [] st = Inr st"
      by simp
    with True show ?thesis
      by blast
  next
    case False
    from False Cons.prems obtain st1 where
      step: "fields_loop X idx [g] st = Inr st1"
        "fields_loop X (Suc idx) gs st1 = Inl ErrShortTagNotSingleByte"
      unfolding st by (auto simp: Let_def split: if_splits)
    from Cons.IH [OF step(2)] obtain pre f post st' where
      split: "gs = pre @ f # post" "fields_loop X (Suc idx) pre st1 = Inr st'"
        "doc_tag f \<noteq> ''-''" "doc_tag f \<noteq> []" "short_tag f \<noteq> []" "length (short_tag f) \<noteq> 1"
      by blast
    have "fields_loop X idx (g # pre) st = Inr st'"
      using fields_loop_append [of X idx "[g]" pre st] step(1) split(2) by simp
    moreover have "g # gs = (g # pre) @ f # post"
      using split(1) by simp
    ultimately show ?thesis
      using split(3-6) by blast
  qed
qed


text \<open>
  Claim C8 (amended). Building the descriptors fails with the short-name error if
  and only if the record has a field that is documented (its documentation tag is
  neither empty nor \<open>-\<close>), carries a non-empty short-name tag that is not exactly
  one byte long, and is reached by the loop (every field before it is accepted).
  For a documented field \<open>g\<close> with a non-empty short-name tag that the loop reaches:
  whatever fields follow, building fails with the short-name error when the tag is
  not one byte long, hence for every tag whose length in characters is not 1, and
  also for a single character encoded in several bytes; building the record that
  ends with \<open>g\<close> fails with that error if and only if the tag is not one byte long;
  and when the tag is one byte long and the field is exported, that record is
  accepted and the option of \<open>g\<close> gets the rune of that byte as its short name.
\<close>

theorem short_tag_single_byte:
  "(newParserWrapper X (PointerToStruct ty fs) cfg = Inl ErrShortTagNotSingleByte
      \<longleftrightarrow> (\<exists>pre f post st. fs = pre @ f # post
             \<and> fields_loop X 0 pre ([], [], []) = Inr st
             \<and> doc_tag f \<noteq> ''-'' \<and> doc_tag f \<noteq> [] \<and> short_tag f \<noteq> []
             \<and> length (short_tag f) \<noteq> 1))
   \<and> (fields_loop X 0 before ([], [], []) = Inr acc
        \<and> doc_tag g \<noteq> ''-'' \<and> doc_tag g \<noteq> [] \<and> short_tag g \<noteq> []
      \<longrightarrow> (length (short_tag g) \<noteq> 1
              \<longrightarrow> newParserWrapper X (PointerToStruct ty (before @ g # after)) cfg
                    = Inl ErrShortTagNotSingleByte)
          \<and> (newParserWrapper X (PointerToStruct ty (before @ [g])) cfg
                = Inl ErrShortTagNotSingleByte
              \<longleftrightarrow> length (short_tag g) \<noteq> 1)
          \<and> (RuneCountInString (short_tag g) \<noteq> 1
              \<longrightarrow> newParserWrapper X (PointerToStruct ty (before @ g # after)) cfg
                    = Inl ErrShortTagNotSingleByte)
          \<and> (length (short_tag g) = 1 \<and> exported g
              \<longrightarrow> (\<exists>q. newParserWrapper X (PointerToStruct ty (before @ [g])) cfg = Inr q
                       \<and> short (last (set_options q)) = DecodeRune1 (hd (short_tag g)))))"
proof (intro conjI impI)
  show "newParserWrapper X (PointerToStruct ty fs) cfg = Inl ErrShortTagNotSingleByte
      \<longleftrightarrow> (\<exists>pre f post st. fs = pre @ f # post
             \<and> fields_loop X 0 pre ([], [], []) = Inr st
             \<and> doc_tag f \<noteq> ''-'' \<and> doc_tag f \<noteq> [] \<and> short_tag f \<noteq> []
             \<and> length (short_tag f) \<noteq> 1)"
  proof
    assume "newParserWrapper X (PointerToStruct ty fs) cfg = Inl ErrShortTagNotSingleByte"
    then have "fields_loop X 0 fs ([], [], []) = Inl ErrShortTagNotSingleByte"
      by (simp add: newParserWrapper_fields)
    from fields_loop_short_tag_split [OF this]
    show "\<exists>pre f post st. fs = pre @ f # post
             \<and> fields_loop X 0 pre ([], [], []) = Inr st
             \<and> doc_tag f \<noteq> ''-'' \<and> doc_tag f \<noteq> [] \<and> short_tag f \<noteq> []
             \<and> length (short_tag f) \<noteq> 1"
      by blast
  next
    assume "\<exists>pre f post st. fs = pre @ f # post
             \<and> fields_loop X 0 pre ([], [], []) = Inr st
             \<and> doc_tag f \<noteq> ''-'' \<and> doc_tag f \<noteq> [] \<and> short_tag f \<noteq> []
             \<and> length (short_tag f) \<noteq> 1"
    then obtain pre f post st where "fs = pre @ f # post"
      "fields_loop X 0 pre ([], [], []) = Inr st"
      "doc_tag f \<noteq> ''-''" "doc_tag f \<noteq> []" "short_tag f \<noteq> []" "length (short_tag f) \<noteq> 1"
      by blast
    then show "newParserWrapper X (PointerToStruct ty fs) cfg = Inl ErrShortTagNotSingleByte"
      by (simp add: newParserWrapper_fields fields_loop_append fields_loop_short_tag)
  qed
next
  assume a: "fields_loop X 0 before ([], [], []) = Inr acc
        \<and> doc_tag g \<noteq> ''-'' \<and> doc_tag g \<noteq> [] \<and> short_tag g \<noteq> []"
    and len: "length (short_tag g) \<noteq> 1"
  then show "newParserWrapper X (PointerToStruct ty (before @ g # after)) cfg
                    = Inl ErrShortTagNotSingleByte"
    by (simp add: newParserWrapper_fields fields_loop_append fields_loop_short_tag)
next
  assume a: "fields_loop X 0 before ([], [], []) = Inr acc
        \<and> doc_tag g \<noteq> ''-'' \<and> doc_tag g \<noteq> [] \<and> short_tag g \<noteq> []"
  obtain opts ds req where st: "acc = (opts, ds, req)"
    by (cases acc) auto
  have fail: "length (short_tag g) \<noteq> 1 \<Longrightarrow>
      newParserWrapper X (PointerToStruct ty (before @ [g])) cfg = Inl ErrShortTagNotSingleByte"
    using a by (simp add: newParserWrapper_fields fields_loop_append fields_loop_short_tag)
  have ok: "length (short_tag g) = 1 \<Longrightarrow>
      newParserWrapper X (PointerToStruct ty (before @ [g])) cfg \<noteq> Inl ErrShortTagNotSingleByte"
    using a
    by (simp add: newParserWrapper_fields fields_loop_append st fields_loop_single_byte Let_def)
  show "newParserWrapper X (PointerToStruct ty (before @ [g])) cfg = Inl ErrShortTagNotSingleByte
          \<longleftrightarrow> length (short_tag g) \<noteq> 1"
    using fail ok by blast
next
  assume a: "fields_loop X 0 before ([], [], []) = Inr acc
        \<and> doc_tag g \<noteq> ''-'' \<and> doc_tag g \<noteq> [] \<and> short_tag g \<noteq> []"
    and cnt: "RuneCountInString (short_tag g) \<noteq> 1"
  have "length (short_tag g) \<noteq> 1"
    using cnt RuneCountInString_single by blast
  with a show "newParserWrapper X (PointerToStruct ty (before @ g # after)) cfg
                    = Inl ErrShortTagNotSingleByte"
    by (simp add: newParserWrapper_fields fields_loop_append fields_loop_short_tag)
next
  assume a: "fields_loop X 0 before ([], [], []) = Inr acc
        \<and> doc_tag g \<noteq> ''-'' \<and> doc_tag g \<noteq> [] \<and> short_tag g \<noteq> []"
    and b: "length (short_tag g) = 1 \<and> exported g"
  obtain opts ds req where st: "acc = (opts, ds, req)"
    by (cases acc) auto
  have "\<exists>os' ds' req'. fields_loop X 0 (before @ [g]) ([], [], []) = Inr (os', ds', req')
          \<and> os' \<noteq> [] \<and> short (last os') = DecodeRune1 (hd (short_tag g))"
    using a b
    by (simp add: fields_loop_append st fields_loop_single_byte Let_def short_option1
        Mandatory_def)
  then show "\<exists>q. newParserWrapper X (PointerToStruct ty (before @ [g])) cfg = Inr q
         \<and> short (last (set_options q)) = DecodeRune1 (hd (short_tag g))"
    by (auto simp: newParserWrapper_def set_options_fold_visit)
qed

theorem short_tag_single_byte_witness:
  "newParserWrapper ref_ext (PointerToStruct (UserT ''CLI'') (ex_fields @ [ex_verbose])) []
      \<noteq> Inl ErrShortTagNotSingleByte
   \<and> (\<exists>q. newParserWrapper ref_ext (PointerToStruct (UserT ''CLI'') (ex_fields @ [ex_verbose])) []
            = Inr q
          \<and> short (last (set_options q)) = 118)
   \<and> newParserWrapper ref_ext (PointerToStruct (UserT ''CLI'') (ex_fields @ ce_accent)) []
       = Inl ErrShortTagNotSingleByte"
proof -
  have a: "doc_tag ex_verbose \<noteq> ''-''" "doc_tag ex_verbose \<noteq> []" "short_tag ex_verbose \<noteq> []"
    by (simp_all add: ex_verbose_def)
  have b: "fields_loop ref_ext 0 ex_fields ([], [], [])
             = Inr ([FlagLong (FieldCell 0) KBool ''batch'' 98],
                    [(''batch'', ''emit JSON messages'')], [])"
    by code_simp
  have c: "length (short_tag ex_verbose) = 1" "exported ex_verbose"
    by (simp_all add: ex_verbose_def)
  have d: "DecodeRune1 (hd (short_tag ex_verbose)) = 118"
    by code_simp
  have e: "\<exists>pre f post st. ex_fields @ ce_accent = pre @ f # post
             \<and> fields_loop ref_ext 0 pre ([], [], []) = Inr st
             \<and> doc_tag f \<noteq> ''-'' \<and> doc_tag f \<noteq> [] \<and> short_tag f \<noteq> []
             \<and> length (short_tag f) \<noteq> 1"
  proof (intro exI conjI)
    show "ex_fields @ ce_accent = ex_fields @ hd ce_accent # []"
      by (simp add: ce_accent_def)
    show "fields_loop ref_ext 0 ex_fields ([], [], [])
             = Inr ([FlagLong (FieldCell 0) KBool ''batch'' 98],
                    [(''batch'', ''emit JSON messages'')], [])"
      by (rule b)
  qed (simp_all add: ce_accent_def)
  show ?thesis
    using short_tag_single_byte [where X = ref_ext and ty = "UserT ''CLI''" and cfg = "[]"
        and fs = "ex_fields @ ce_accent" and before = ex_fields and g = ex_verbose
        and after = "[]"
        and acc = "([FlagLong (FieldCell 0) KBool ''batch'' 98],
                    [(''batch'', ''emit JSON messages'')], [])"]
      a b c d e
    by simp
qed

text \<open>
  The claim as stated lets every tag that decodes to one character through,
  multi-byte characters included. The tag of this record is the two bytes C3 A9,
  the UTF-8 encoding of one character (e with an acute accent): building fails.
\<close>

theorem short_tag_counterexample:
  "RuneCountInString (short_tag (ce_accent ! 0)) = 1
   \<and> newParserWrapper ref_ext (PointerToStruct (UserT ''CLI'') ce_accent) []
       = Inl ErrShortTagNotSingleByte"
  by code_simp

subsection \<open>Sorted children and the listing of subcommands\<close>

lemma entries_sel: "entries p names = child_entries (subcommands p) names"
  by (cases p) simp

lemma printSubcommands_sel:
  "printSubcommands X p names =
     (if length (subcommands p) > 0
      then (if length names \<le> 0 then [''Subcommands:'' @ nl @ nl] else [])
           @ print_children X (subcommands p) names
      else [])"
  by (cases p) simp

lemma entries_prefix:
  "e \<in> set (entries p names) \<Longrightarrow>
     \<exists>c\<in>set (subcommands p). \<exists>rest. fst e = names @ name c # rest"
  and child_entries_prefix:
  "e \<in> set (child_entries scs names) \<Longrightarrow>
     \<exists>c\<in>set scs. \<exists>rest. fst e = names @ name c # rest"
proof (induction p names and scs names arbitrary: e and e rule: entries_child_entries.induct)
  case (1 d h n opts pc scs names)
  then show ?case by simp
next
  case (2 names)
  then show ?case by simp
next
  case (3 sc scs names)
  show ?case
  proof (cases "e \<in> set (child_entries scs names)")
    case True
    from "3.IH"(2) [OF refl True] show ?thesis by auto
  next
    case False
    show ?thesis
    proof (cases "length (subcommands sc) > 0")
      case True
      with "3.prems" False have "e \<in> set (entries sc (names @ [name sc]))"
        by (simp add: Let_def)
      from "3.IH"(1) [OF refl True this] show ?thesis by auto
    next
      case nochild: False
      with "3.prems" False have "fst e = names @ [name sc]"
        by (auto simp: Let_def)
      then show ?thesis by auto
    qed
  qed
qed

lemma print_entries:
  "printSubcommands X p names =
     (if subcommands p \<noteq> [] \<and> names = [] then [''Subcommands:'' @ nl @ nl] else [])
     @ concat (map (\<lambda>e. printSingleSubcommand X (snd e) (fst e)) (entries p names))"
  and print_child_entries:
  "print_children X scs names =
     concat (map (\<lambda>e. printSingleSubcommand X (snd e) (fst e)) (child_entries scs names))"
proof (induction X p names and X scs names rule: printSubcommands_print_children.induct)
  case (1 X d h n opts pc scs names)
  then show ?case by (cases scs) auto
next
  case (2 X names)
  show ?case by simp
next
  case (3 X sc scs names)
  show ?case
  proof (cases "length (subcommands sc) > 0")
    case True
    with "3.IH"(1) [OF refl True] "3.IH"(2) [OF refl] show ?thesis
      by (simp add: Let_def)
  next
    case False
    with "3.IH"(2) [OF refl] show ?thesis
      by (simp add: Let_def)
  qed
qed

lemma sorted_const: "\<forall>x\<in>set xs. x = c \<Longrightarrow> sorted xs"
  by (induction xs) auto

lemma child_level_sorted:
  "sorted (map name scs) \<Longrightarrow>
   sorted (map (\<lambda>e. fst e ! length names) (child_entries scs names))"
proof (induction scs)
  case Nil
  show ?case by simp
next
  case (Cons sc scs)
  let ?here = "if length (subcommands sc) > 0 then entries sc (names @ [name sc])
               else [(names @ [name sc], description sc)]"
  have here: "fst e ! length names = name sc" if "e \<in> set ?here" for e
  proof (cases "length (subcommands sc) > 0")
    case True
    with that have "e \<in> set (entries sc (names @ [name sc]))" by simp
    from entries_prefix [OF this] obtain rest' where "fst e = (names @ [name sc]) @ rest'"
      by auto
    then show ?thesis by (simp add: nth_append)
  next
    case False
    with that show ?thesis by (simp add: nth_append)
  qed
  have rest: "name sc \<le> fst e ! length names" if "e \<in> set (child_entries scs names)" for e
  proof -
    from child_entries_prefix [OF that] obtain c rest' where
      "c \<in> set scs" "fst e = names @ name c # rest'" by auto
    with Cons.prems show ?thesis by (auto simp: nth_append)
  qed
  have "sorted (map (\<lambda>e. fst e ! length names) ?here)"
    by (rule sorted_const [where c = "name sc"]) (use here in auto)
  moreover have "sorted (map (\<lambda>e. fst e ! length names) (child_entries scs names))"
    using Cons by simp
  ultimately show ?case
    using here rest by (auto simp: Let_def sorted_append)
qed

lemma level_names_sorted:
  "sorted (map name (subcommands p)) \<Longrightarrow> sorted (level_names p names)"
  by (simp add: level_names_def entries_sel child_level_sorted)

lemma sorted_tree_sel:
  "sorted_tree p = (sorted (map name (subcommands p)) \<and> list_all sorted_tree (subcommands p))"
  by (cases p) simp

lemma sorted_tree_nodes:
  "sorted_tree p \<Longrightarrow> q \<in> set (nodes p) \<Longrightarrow> sorted (map name (subcommands q))"
proof (induction p arbitrary: q)
  case (CommandParser d h n opts pc scs)
  then show ?case
    by (auto simp: list_all_iff)
qed

lemma subcommands_Subcommand:
  "subcommands (Subcommand nm descr opts scs) = sort_key name scs"
  by (simp add: Subcommand_def)

lemma sorted_tree_Subcommand:
  "list_all sorted_tree scs \<Longrightarrow> sorted_tree (Subcommand nm descr opts scs)"
  by (simp add: Subcommand_def list_all_iff)

lemma subcommands_leaf_config: "subcommands (leaf_config c p) = subcommands p"
  by (cases c) (simp_all add: set_pac_def)

lemma subcommands_fold_leaf_config: "subcommands (fold leaf_config cs p) = subcommands p"
  by (induction cs arbitrary: p) (simp_all add: subcommands_leaf_config)

lemma subcommands_LeafSubcommand: "subcommands (LeafSubcommand nm descr opts config) = []"
  by (simp add: LeafSubcommand_def subcommands_fold_leaf_config Subcommand_def)

lemma sorted_tree_LeafSubcommand: "sorted_tree (LeafSubcommand nm descr opts config)"
  by (simp add: sorted_tree_sel subcommands_LeafSubcommand)

lemma sorted_tree_Command:
  "list_all sorted_tree scs \<Longrightarrow> sorted_tree (Command program descr opts scs)"
  by (simp add: Command_def Let_def sorted_tree_Subcommand sorted_tree_LeafSubcommand)

text \<open>
  Claim C6. Whatever the order of the children given to \<open>Subcommand\<close>, the node
  holds them all, sorted in ascending order of name (the order of Go's \<^verbatim>\<open><\<close> on
  strings, which compares byte by byte); so does the node built by \<open>Command\<close>, which adds the help child before
  sorting. \<^verbatim>\<open>printSubcommands\<close> prints the header and then one entry after the other
  in the order of \<open>entries\<close>, and the children under which the entries of a node
  are listed come in ascending order of name. Every tree built from \<open>Command\<close>,
  \<open>Subcommand\<close> and \<open>LeafSubcommand\<close> has all its levels sorted, so this holds at each
  node of the tree.
\<close>

theorem subcommands_sorted:
  "sorted (map name (subcommands (Subcommand nm descr opts scs)))
   \<and> set (subcommands (Subcommand nm descr opts scs)) = set scs
   \<and> length (subcommands (Subcommand nm descr opts scs)) = length scs
   \<and> sorted (map name (subcommands (Command program descr opts scs)))
   \<and> printSubcommands X p names =
       (if subcommands p \<noteq> [] \<and> names = [] then [''Subcommands:'' @ nl @ nl] else [])
       @ concat (map (\<lambda>e. printSingleSubcommand X (snd e) (fst e)) (entries p names))
   \<and> sorted (level_names (Subcommand nm descr opts scs) names)
   \<and> sorted (level_names (Command program descr opts scs) names)
   \<and> sorted_tree (LeafSubcommand nm descr opts config)
   \<and> (list_all sorted_tree scs \<longrightarrow>
        sorted_tree (Subcommand nm descr opts scs)
        \<and> sorted_tree (Command program descr opts scs)
        \<and> (\<forall>q\<in>set (nodes (Command program descr opts scs)). sorted (level_names q names)))"
proof -
  have cmd: "sorted (map name (subcommands (Command program descr opts scs)))"
    by (simp add: Command_def Let_def subcommands_Subcommand)
  have deep: "\<forall>q\<in>set (nodes (Command program descr opts scs)). sorted (level_names q names)"
    if "list_all sorted_tree scs"
    using sorted_tree_nodes [OF sorted_tree_Command [OF that]] level_names_sorted by blast
  show ?thesis
    using cmd deep print_entries(1) [of X p names]
    by (simp add: subcommands_Subcommand level_names_sorted sorted_tree_LeafSubcommand
        sorted_tree_Subcommand sorted_tree_Command)
qed

theorem subcommands_sorted_witness:
  "list_all sorted_tree [ex_run, ex_list]
   \<and> sorted_tree ex_cli
   \<and> map fst (entries ex_cli [])
       = [[''help''], [''list''], [''run'', ''urlgetter''], [''run'', ''websites'']]
   \<and> sorted (level_names ex_cli [])
   \<and> sorted (level_names ex_run [''prog''])"
proof -
  have a: "list_all sorted_tree [ex_run, ex_list]"
    by code_simp
  have b: "ex_run \<in> set (nodes ex_cli)" "ex_cli \<in> set (nodes ex_cli)"
    by code_simp+
  have c: "map fst (entries ex_cli [])
       = [[''help''], [''list''], [''run'', ''urlgetter''], [''run'', ''websites'']]"
    by code_simp
  have d: "sorted_tree ex_cli \<and> (\<forall>q\<in>set (nodes ex_cli). sorted (level_names q names))" for names
    using subcommands_sorted [where scs = "[ex_run, ex_list]" and program = "''prog''"
        and descr = "''Network measurement tool''" and opts = ex_global and names = names] a
    unfolding ex_cli_def by blast
  show ?thesis
    using a b c d [of "[]"] d [of "[''prog'']"] by blast
qed

subsection \<open>The steps of resolution\<close>

lemma set_help_sel [simp]:
  "description (set_help b p) = description p" "help' (set_help b p) = b"
  "name (set_help b p) = name p" "options (set_help b p) = options p"
  "cmd_pac (set_help b p) = cmd_pac p" "subcommands (set_help b p) = subcommands p"
  by (simp_all add: set_help_def)

lemma getoptall_parsed:
  assumes "chain \<noteq> []"
    and "CommandParser_newParserWrapper X p chain = (Inr parser0, fc)"
    and "parserWrapper_Getopt X parser0 argv = (w, parser, None)"
  shows "getoptall X p chain argv =
     (let p1 = set_help (help_after p parser w) p; cmd = name (hd chain) in
      if help_after p parser w
      then (p1, map Stdout (printHelp X p1 parser chain), Selected printed_help)
      else if subcommands p = []
      then (case check (cmd_pac p) parser of
              Some err \<Rightarrow>
                (p1, [], Failed (ErrWrapped (cmd @ '': for command '' @ name p @ '': '') err))
            | None \<Rightarrow> (p1, [], Selected (newSelectedCommand p1 (Args parser))))
      else if NArgs parser \<le> 0
      then (if length chain < 2
            then (p1, map Stdout (printHelp X p1 parser chain), Selected printed_help)
            else (p1,
                  [Stderr (cmd @ '': expected subcommand name. See '' @ squote @ fc
                           @ '' --help'' @ squote @ ''.'' @ nl)],
                  Failed ErrExpectedSubcommandName))
      else (case dispatch X (subcommands p) chain (hd (Args parser)) (Args parser) of
              Some (scs', evs, r) \<Rightarrow> (set_subcommands scs' p1, evs, r)
            | None \<Rightarrow>
                (p1,
                 [Stderr (cmd @ '': no such subcommand: '' @ squote @ hd (Args parser) @ squote
                          @ ''. See '' @ squote @ fc @ '' --help'' @ squote @ ''.'' @ nl)],
                 Failed ErrNoSuchSubcommand)))"
proof (cases p)
  case (CommandParser d h n opts pc scs)
  have len: "\<not> length chain < 1"
    using assms(1) by (cases chain) auto
  show ?thesis
    using assms(2,3) len unfolding CommandParser
    by (simp add: Let_def cong: option.case_cong)
qed

lemma dispatch_None:
  "dispatch X scs chain subcmd argv = None \<longleftrightarrow> (\<forall>c\<in>set scs. name c \<noteq> subcmd)"
proof (induction scs)
  case Nil
  show ?case by simp
next
  case (Cons sc scs)
  show ?case
  proof (cases "subcmd = name sc")
    case True
    then show ?thesis by (auto split: prod.splits)
  next
    case False
    with Cons show ?thesis by (auto split: option.splits)
  qed
qed

text \<open>
  Claim C2 (amended). Take a node with children whose parser was built and whose
  flat parsing succeeded with no positional argument left. At the root of the walk
  (a chain of length 1) full help is printed to the standard output and resolution
  succeeds with the \<open>HasPrintedHelp\<close> sentinel. At any other node, when the help cell
  of the node is clear after flat parsing, resolution fails with the error
  "expected subcommand name", reported on the error stream with the
  "See ... --help" pointer. When the help cell is set after flat parsing, help is
  printed and the sentinel returned, at any depth. The cell is set after flat
  parsing when the flat parser wrote true to it in this pass, and also when the
  parser wrote nothing and the cell was set in the tree as given: nothing ever
  clears it.
\<close>

theorem no_arguments_at_node:
  assumes "chain \<noteq> []"
    and "CommandParser_newParserWrapper X p chain = (Inr parser0, fc)"
    and "parserWrapper_Getopt X parser0 argv = (w, parser, None)"
    and "subcommands p \<noteq> []"
    and "NArgs parser \<le> 0"
  shows "(length chain = 1 \<longrightarrow>
            getoptall X p chain argv =
              (set_help (help_after p parser w) p,
               map Stdout (printHelp X (set_help (help_after p parser w) p) parser chain),
               Selected printed_help))
       \<and> (2 \<le> length chain \<and> \<not> help_after p parser w \<longrightarrow>
            getoptall X p chain argv =
              (set_help False p,
               [Stderr (name (hd chain) @ '': expected subcommand name. See '' @ squote @ fc
                        @ '' --help'' @ squote @ ''.'' @ nl)],
               Failed ErrExpectedSubcommandName))
       \<and> (help_after p parser w \<longrightarrow>
            getoptall X p chain argv =
              (set_help True p, map Stdout (printHelp X (set_help True p) parser chain),
               Selected printed_help))
       \<and> (w = None \<longrightarrow> help_after p parser w = help' p)
       \<and> (w = Some True \<and> list_ex (\<lambda>o'. bound o' = HelpCell) (set_options parser)
            \<longrightarrow> help_after p parser w)
       \<and> Error ErrExpectedSubcommandName = ''expected subcommand name''
       \<and> selected_options printed_help = HasPrintedHelp"
  using assms(4,5) getoptall_parsed [OF assms(1-3)]
  by (auto simp: Let_def printed_help_def help_after_def)

text \<open>
  Claim C3 (amended). Take a leaf whose parser was built and whose flat parsing
  succeeded. When the help cell of the leaf is clear after flat parsing: if the
  number of positional arguments left is below the leaf's minimum or above its
  maximum, \<open>getoptall\<close> fails with the too-few or the too-many error, wrapped with the
  prefix "cmd: for command name: ", prints nothing and selects no command;
  otherwise it selects the leaf's record with exactly the arguments left; and for
  the policy of exactly one argument (the checker that \<open>LeafSubcommand\<close> sets for
  \<open>JustOnePositionalArgument\<close>), no argument is too few, two are too many, and one
  succeeds with that argument. When the help cell is set after flat parsing, help
  is printed and the sentinel returned, whatever the number of arguments. The cell
  is set after flat parsing when the flat parser wrote true to it in this pass,
  and also when the parser wrote nothing and the cell was set in the tree as given:
  nothing ever clears it.
\<close>

theorem leaf_positional_policy:
  assumes "chain \<noteq> []"
    and "CommandParser_newParserWrapper X p chain = (Inr parser0, fc)"
    and "parserWrapper_Getopt X parser0 argv = (w, parser, None)"
    and "subcommands p = []"
  shows "(\<not> help_after p parser w \<longrightarrow>
            (NArgs parser < minArgs (cmd_pac p) \<longrightarrow>
               getoptall X p chain argv =
                 (set_help False p, [],
                  Failed (ErrWrapped (name (hd chain) @ '': for command '' @ name p @ '': '')
                            ErrTooFewPositionalArguments)))
          \<and> (minArgs (cmd_pac p) \<le> NArgs parser \<and> maxArgs (cmd_pac p) < NArgs parser \<longrightarrow>
               getoptall X p chain argv =
                 (set_help False p, [],
                  Failed (ErrWrapped (name (hd chain) @ '': for command '' @ name p @ '': '')
                            ErrTooManyPositionalArguments)))
          \<and> (minArgs (cmd_pac p) \<le> NArgs parser \<and> NArgs parser \<le> maxArgs (cmd_pac p) \<longrightarrow>
               getoptall X p chain argv =
                 (set_help False p, [],
                  Selected \<lparr>selected_options = options p, selected_args = Args parser\<rparr>))
          \<and> (cmd_pac p = \<lparr>minArgs = 1, maxArgs = 1\<rparr> \<longrightarrow>
               (length (Args parser) = 0 \<longrightarrow>
                  snd (snd (getoptall X p chain argv)) =
                    Failed (ErrWrapped (name (hd chain) @ '': for command '' @ name p @ '': '')
                              ErrTooFewPositionalArguments))
             \<and> (length (Args parser) = 2 \<longrightarrow>
                  snd (snd (getoptall X p chain argv)) =
                    Failed (ErrWrapped (name (hd chain) @ '': for command '' @ name p @ '': '')
                              ErrTooManyPositionalArguments))
             \<and> (length (Args parser) = 1 \<longrightarrow>
                  snd (snd (getoptall X p chain argv)) =
                    Selected \<lparr>selected_options = options p, selected_args = Args parser\<rparr>)))
       \<and> (help_after p parser w \<longrightarrow>
            getoptall X p chain argv =
              (set_help True p, map Stdout (printHelp X (set_help True p) parser chain),
               Selected printed_help))
       \<and> (w = None \<longrightarrow> help_after p parser w = help' p)
       \<and> (w = Some True \<and> list_ex (\<lambda>o'. bound o' = HelpCell) (set_options parser)
            \<longrightarrow> help_after p parser w)
       \<and> cmd_pac (LeafSubcommand nm descr opts [JustOnePositionalArgument])
           = \<lparr>minArgs = 1, maxArgs = 1\<rparr>
       \<and> subcommands (LeafSubcommand nm descr opts [JustOnePositionalArgument]) = []
       \<and> Error (ErrWrapped pre ErrTooFewPositionalArguments)
           = pre @ ''too few positional arguments''
       \<and> Error (ErrWrapped pre ErrTooManyPositionalArguments)
           = pre @ ''too many positional arguments''"
proof -
  have leaf: "cmd_pac (LeafSubcommand nm descr opts [JustOnePositionalArgument])
           = \<lparr>minArgs = 1, maxArgs = 1\<rparr>"
    by (simp add: LeafSubcommand_def JustOnePositionalArgument_def Subcommand_def set_pac_def)
  have cell: "w = None \<longrightarrow> help_after p parser w = help' p"
    "w = Some True \<and> list_ex (\<lambda>o'. bound o' = HelpCell) (set_options parser)
       \<longrightarrow> help_after p parser w"
    by (auto simp: help_after_def)
  have hlp: "getoptall X p chain argv =
      (set_help True p, map Stdout (printHelp X (set_help True p) parser chain),
       Selected printed_help)"
    if "help_after p parser w"
    using that getoptall_parsed [OF assms(1-3)] by (simp add: Let_def)
  have pol: "getoptall X p chain argv =
      (case check (cmd_pac p) parser of
         Some err \<Rightarrow>
           (set_help False p, [],
            Failed (ErrWrapped (name (hd chain) @ '': for command '' @ name p @ '': '') err))
       | None \<Rightarrow> (set_help False p, [], Selected (newSelectedCommand (set_help False p) (Args parser))))"
    if "\<not> help_after p parser w"
    using that assms(4) getoptall_parsed [OF assms(1-3)] by (simp add: Let_def)
  have branch: "\<not> help_after p parser w \<longrightarrow>
            (NArgs parser < minArgs (cmd_pac p) \<longrightarrow>
               getoptall X p chain argv =
                 (set_help False p, [],
                  Failed (ErrWrapped (name (hd chain) @ '': for command '' @ name p @ '': '')
                            ErrTooFewPositionalArguments)))
          \<and> (minArgs (cmd_pac p) \<le> NArgs parser \<and> maxArgs (cmd_pac p) < NArgs parser \<longrightarrow>
               getoptall X p chain argv =
                 (set_help False p, [],
                  Failed (ErrWrapped (name (hd chain) @ '': for command '' @ name p @ '': '')
                            ErrTooManyPositionalArguments)))
          \<and> (minArgs (cmd_pac p) \<le> NArgs parser \<and> NArgs parser \<le> maxArgs (cmd_pac p) \<longrightarrow>
               getoptall X p chain argv =
                 (set_help False p, [],
                  Selected \<lparr>selected_options = options p, selected_args = Args parser\<rparr>))
          \<and> (cmd_pac p = \<lparr>minArgs = 1, maxArgs = 1\<rparr> \<longrightarrow>
               (length (Args parser) = 0 \<longrightarrow>
                  snd (snd (getoptall X p chain argv)) =
                    Failed (ErrWrapped (name (hd chain) @ '': for command '' @ name p @ '': '')
                              ErrTooFewPositionalArguments))
             \<and> (length (Args parser) = 2 \<longrightarrow>
                  snd (snd (getoptall X p chain argv)) =
                    Failed (ErrWrapped (name (hd chain) @ '': for command '' @ name p @ '': '')
                              ErrTooManyPositionalArguments))
             \<and> (length (Args parser) = 1 \<longrightarrow>
                  snd (snd (getoptall X p chain argv)) =
                    Selected \<lparr>selected_options = options p, selected_args = Args parser\<rparr>))"
    using pol
    by (auto simp: check_def Let_def newSelectedCommand_def NArgs_def Args_def)
  show ?thesis
    using branch hlp cell leaf
    by (simp add: subcommands_LeafSubcommand)
qed

text \<open>
  Claim C5 (amended). Take a node with children whose parser was built and whose
  flat parsing succeeded with at least one positional argument left. When the help
  cell of the node is clear after flat parsing and no child has the first of these
  arguments as its name, resolution fails with the error "no such subcommand",
  reported on the error stream, and selects nothing; when a child has that name,
  the loop over the children finds it. When the help cell is set after flat
  parsing, help is printed and the sentinel returned, whatever the argument names.
  The cell is set after flat parsing when the flat parser wrote true to it in this
  pass, and also when the parser wrote nothing and the cell was set in the tree as
  given: nothing ever clears it.
\<close>

theorem no_such_subcommand:
  assumes "chain \<noteq> []"
    and "CommandParser_newParserWrapper X p chain = (Inr parser0, fc)"
    and "parserWrapper_Getopt X parser0 argv = (w, parser, None)"
    and "subcommands p \<noteq> []"
    and "0 < NArgs parser"
  shows "(\<not> help_after p parser w
          \<and> (\<forall>c\<in>set (subcommands p). name c \<noteq> hd (Args parser)) \<longrightarrow>
            getoptall X p chain argv =
              (set_help False p,
               [Stderr (name (hd chain) @ '': no such subcommand: '' @ squote @ hd (Args parser)
                        @ squote @ ''. See '' @ squote @ fc @ '' --help'' @ squote @ ''.''
                        @ nl)],
               Failed ErrNoSuchSubcommand))
       \<and> ((\<exists>c\<in>set (subcommands p). name c = hd (Args parser)) \<longrightarrow>
            dispatch X (subcommands p) chain (hd (Args parser)) (Args parser) \<noteq> None)
       \<and> (help_after p parser w \<longrightarrow>
            getoptall X p chain argv =
              (set_help True p, map Stdout (printHelp X (set_help True p) parser chain),
               Selected printed_help))
       \<and> (w = None \<longrightarrow> help_after p parser w = help' p)
       \<and> (w = Some True \<and> list_ex (\<lambda>o'. bound o' = HelpCell) (set_options parser)
            \<longrightarrow> help_after p parser w)
       \<and> Error ErrNoSuchSubcommand = ''no such subcommand''"
proof -
  have none: "dispatch X (subcommands p) chain (hd (Args parser)) (Args parser) = None"
    if "\<forall>c\<in>set (subcommands p). name c \<noteq> hd (Args parser)"
    using that by (simp add: dispatch_None)
  have some: "dispatch X (subcommands p) chain (hd (Args parser)) (Args parser) \<noteq> None"
    if "\<exists>c\<in>set (subcommands p). name c = hd (Args parser)"
    using that by (simp add: dispatch_None)
  have unfolded: "getoptall X p chain argv =
      (set_help False p,
       [Stderr (name (hd chain) @ '': no such subcommand: '' @ squote @ hd (Args parser)
                @ squote @ ''. See '' @ squote @ fc @ '' --help'' @ squote @ ''.'' @ nl)],
       Failed ErrNoSuchSubcommand)"
    if "\<not> help_after p parser w" "\<forall>c\<in>set (subcommands p). name c \<noteq> hd (Args parser)"
    using assms(4,5) that(1) getoptall_parsed [OF assms(1-3)] none [OF that(2)]
    by (simp add: Let_def)
  have hlp: "getoptall X p chain argv =
      (set_help True p, map Stdout (printHelp X (set_help True p) parser chain),
       Selected printed_help)"
    if "help_after p parser w"
    using that getoptall_parsed [OF assms(1-3)] by (simp add: Let_def)
  have cell: "w = None \<longrightarrow> help_after p parser w = help' p"
    "w = Some True \<and> list_ex (\<lambda>o'. bound o' = HelpCell) (set_options parser)
       \<longrightarrow> help_after p parser w"
    by (auto simp: help_after_def)
  show ?thesis
    using unfolded some hlp cell by simp
qed

subsection \<open>The steps of resolution on the example tree\<close>

theorem no_arguments_at_node_witness:
  "snd (snd (getoptall ref_ext ex_cli [ex_cli] [''prog''])) = Selected printed_help
   \<and> fst (snd (getoptall ref_ext ex_cli [ex_cli] [''prog'']))
       = map Stdout (printHelp ref_ext ex_cli (fst (snd (parsed ref_ext ex_cli [ex_cli] [''prog''])))
                       [ex_cli])
   \<and> getoptall ref_ext ex_run [ex_cli, ex_run] [''run'']
       = (ex_run,
          [Stderr (''prog: expected subcommand name. See '' @ squote @ ''prog run --help''
                   @ squote @ ''.'' @ nl)],
          Failed ErrExpectedSubcommandName)
   \<and> snd (snd (getoptall ref_ext ex_run [ex_cli, ex_run] [''run'', ''--help'']))
       = Selected printed_help
   \<and> Getopt ref_ext ex_cli [''prog''] = Some (getoptall ref_ext ex_cli [ex_cli] [''prog''])
   \<and> map_option (snd \<circ> snd) (Getopt ref_ext ex_cli [''prog'', ''run''])
       = Some (Failed ErrExpectedSubcommandName)"
proof -
  have top: "Getopt ref_ext ex_cli [''prog''] = Some (getoptall ref_ext ex_cli [ex_cli] [''prog''])"
    "map_option (snd \<circ> snd) (Getopt ref_ext ex_cli [''prog'', ''run''])
       = Some (Failed ErrExpectedSubcommandName)"
    by code_simp+
  have ne: "[ex_cli] \<noteq> []" "[ex_cli, ex_run] \<noteq> []"
    by simp_all
  have root1: "CommandParser_newParserWrapper ref_ext ex_cli [ex_cli]
                 = (Inr (built ref_ext ex_cli [ex_cli]), ''prog'')"
    unfolding built_def by code_simp
  have root2: "parserWrapper_Getopt ref_ext (built ref_ext ex_cli [ex_cli]) [''prog'']
                 = (None, fst (snd (parsed ref_ext ex_cli [ex_cli] [''prog''])), None)"
    unfolding built_def parsed_def by code_simp
  have root3: "subcommands ex_cli \<noteq> []"
    "NArgs (fst (snd (parsed ref_ext ex_cli [ex_cli] [''prog'']))) \<le> 0"
    "set_help (help_after ex_cli (fst (snd (parsed ref_ext ex_cli [ex_cli] [''prog'']))) None) ex_cli
       = ex_cli"
    unfolding built_def parsed_def by code_simp+
  have run1: "CommandParser_newParserWrapper ref_ext ex_run [ex_cli, ex_run]
                 = (Inr (built ref_ext ex_run [ex_cli, ex_run]), ''prog run'')"
    unfolding built_def by code_simp
  have run2: "parserWrapper_Getopt ref_ext (built ref_ext ex_run [ex_cli, ex_run]) [''run'']
                 = (None, fst (snd (parsed ref_ext ex_run [ex_cli, ex_run] [''run''])), None)"
    unfolding built_def parsed_def by code_simp
  have run3: "subcommands ex_run \<noteq> []"
    "NArgs (fst (snd (parsed ref_ext ex_run [ex_cli, ex_run] [''run'']))) \<le> 0"
    "\<not> help_after ex_run (fst (snd (parsed ref_ext ex_run [ex_cli, ex_run] [''run'']))) None"
    "set_help False ex_run = ex_run" "name (hd [ex_cli, ex_run]) = ''prog''"
    unfolding built_def parsed_def by code_simp+
  have hlp2: "parserWrapper_Getopt ref_ext (built ref_ext ex_run [ex_cli, ex_run])
                  [''run'', ''--help'']
                 = (Some True,
                    fst (snd (parsed ref_ext ex_run [ex_cli, ex_run] [''run'', ''--help''])), None)"
    unfolding built_def parsed_def by code_simp
  have hlp3:
    "NArgs (fst (snd (parsed ref_ext ex_run [ex_cli, ex_run] [''run'', ''--help'']))) \<le> 0"
    "help_after ex_run (fst (snd (parsed ref_ext ex_run [ex_cli, ex_run] [''run'', ''--help''])))
       (Some True)"
    unfolding built_def parsed_def by code_simp+
  show ?thesis
    using no_arguments_at_node [OF ne(1) root1 root2 root3(1,2)]
      no_arguments_at_node [OF ne(2) run1 run2 run3(1,2)]
      no_arguments_at_node [OF ne(2) run1 hlp2 run3(1) hlp3(1)]
      root3(3) run3(3,4,5) hlp3(2) top
    by simp
qed

text \<open>
  The claim as stated makes every node but the root fail when no positional
  argument is left; read after the step that handles the help flag, it still does
  so for every pass in which the flag has not fired. The help cell of a node is
  written by the flat parser and never cleared. On the tree that
  \<^verbatim>\<open>prog run --help\<close> leaves behind, \<^verbatim>\<open>prog run\<close> fires no flag: the node \<open>run\<close> has
  children, is second in the chain and is left with no positional argument, the
  flat parser writes nothing, and resolution prints the help of \<open>run\<close> and succeeds
  with the sentinel.
\<close>

theorem no_arguments_counterexample:
  "map_option fst (Getopt ref_ext ex_cli [''prog'', ''run'', ''--help'']) = Some ce_served_run
   \<and> subcommands (set_help True ex_run) \<noteq> []
   \<and> length [ce_served_run, set_help True ex_run] = 2
   \<and> parsed ref_ext (set_help True ex_run) [ce_served_run, set_help True ex_run] [''run'']
       = (None, (built ref_ext (set_help True ex_run) [ce_served_run, set_help True ex_run])
                  \<lparr>set_args := []\<rparr>, None)
   \<and> snd (snd (getoptall ref_ext (set_help True ex_run) [ce_served_run, set_help True ex_run]
                  [''run'']))
       = Selected printed_help
   \<and> map_option (snd \<circ> snd) (Getopt ref_ext ce_served_run [''prog'', ''run''])
       = Some (Selected printed_help)"
  by code_simp

theorem leaf_positional_policy_witness:
  "snd (snd (getoptall ref_ext ex_urlgetter [ex_cli, ex_run, ex_urlgetter] [''urlgetter'']))
     = Failed (ErrWrapped ''prog: for command urlgetter: '' ErrTooFewPositionalArguments)
   \<and> snd (snd (getoptall ref_ext ex_urlgetter [ex_cli, ex_run, ex_urlgetter]
                  [''urlgetter'', ''a'', ''b'']))
     = Failed (ErrWrapped ''prog: for command urlgetter: '' ErrTooManyPositionalArguments)
   \<and> snd (snd (getoptall ref_ext ex_urlgetter [ex_cli, ex_run, ex_urlgetter]
                  [''urlgetter'', ''a'']))
     = Selected \<lparr>selected_options = options ex_urlgetter, selected_args = [''a'']\<rparr>
   \<and> map_option (snd \<circ> snd) (Getopt ref_ext ex_cli [''prog'', ''run'', ''urlgetter''])
     = Some (Failed (ErrWrapped ''prog: for command urlgetter: '' ErrTooFewPositionalArguments))
   \<and> map_option (snd \<circ> snd) (Getopt ref_ext ex_cli [''prog'', ''run'', ''urlgetter'', ''a'', ''b''])
     = Some (Failed (ErrWrapped ''prog: for command urlgetter: '' ErrTooManyPositionalArguments))
   \<and> map_option (snd \<circ> snd) (Getopt ref_ext ex_cli [''prog'', ''run'', ''urlgetter'', ''a''])
     = Some (Selected \<lparr>selected_options = options ex_urlgetter, selected_args = [''a'']\<rparr>)
   \<and> snd (snd (getoptall ref_ext ex_urlgetter [ex_cli, ex_run, ex_urlgetter]
                  [''urlgetter'', ''--help'', ''a'', ''b'']))
     = Selected printed_help"
proof -
  let ?ch = "[ex_cli, ex_run, ex_urlgetter]"
  have top:
    "map_option (snd \<circ> snd) (Getopt ref_ext ex_cli [''prog'', ''run'', ''urlgetter''])
     = Some (Failed (ErrWrapped ''prog: for command urlgetter: '' ErrTooFewPositionalArguments))"
    "map_option (snd \<circ> snd) (Getopt ref_ext ex_cli [''prog'', ''run'', ''urlgetter'', ''a'', ''b''])
     = Some (Failed (ErrWrapped ''prog: for command urlgetter: '' ErrTooManyPositionalArguments))"
    "map_option (snd \<circ> snd) (Getopt ref_ext ex_cli [''prog'', ''run'', ''urlgetter'', ''a''])
     = Some (Selected \<lparr>selected_options = options ex_urlgetter, selected_args = [''a'']\<rparr>)"
    by code_simp+
  have ne: "?ch \<noteq> []"
    by simp
  have b: "CommandParser_newParserWrapper ref_ext ex_urlgetter ?ch
             = (Inr (built ref_ext ex_urlgetter ?ch), ''prog run urlgetter'')"
    unfolding built_def by code_simp
  have leaf: "subcommands ex_urlgetter = []" "cmd_pac ex_urlgetter = \<lparr>minArgs = 1, maxArgs = 1\<rparr>"
    "name (hd ?ch) = ''prog''" "name ex_urlgetter = ''urlgetter''"
    by code_simp+
  have p0: "parserWrapper_Getopt ref_ext (built ref_ext ex_urlgetter ?ch) [''urlgetter'']
             = (None, fst (snd (parsed ref_ext ex_urlgetter ?ch [''urlgetter''])), None)"
    unfolding built_def parsed_def by code_simp
  have h0: "\<not> help_after ex_urlgetter (fst (snd (parsed ref_ext ex_urlgetter ?ch [''urlgetter''])))
                 None"
    "length (Args (fst (snd (parsed ref_ext ex_urlgetter ?ch [''urlgetter''])))) = 0"
    unfolding built_def parsed_def by code_simp+
  have p1: "parserWrapper_Getopt ref_ext (built ref_ext ex_urlgetter ?ch) [''urlgetter'', ''a'']
             = (None, fst (snd (parsed ref_ext ex_urlgetter ?ch [''urlgetter'', ''a''])), None)"
    unfolding built_def parsed_def by code_simp
  have h1: "\<not> help_after ex_urlgetter
                 (fst (snd (parsed ref_ext ex_urlgetter ?ch [''urlgetter'', ''a'']))) None"
    "length (Args (fst (snd (parsed ref_ext ex_urlgetter ?ch [''urlgetter'', ''a''])))) = 1"
    "Args (fst (snd (parsed ref_ext ex_urlgetter ?ch [''urlgetter'', ''a'']))) = [''a'']"
    unfolding built_def parsed_def by code_simp+
  have p2: "parserWrapper_Getopt ref_ext (built ref_ext ex_urlgetter ?ch)
               [''urlgetter'', ''a'', ''b'']
             = (None, fst (snd (parsed ref_ext ex_urlgetter ?ch [''urlgetter'', ''a'', ''b''])),
                None)"
    unfolding built_def parsed_def by code_simp
  have h2: "\<not> help_after ex_urlgetter
                 (fst (snd (parsed ref_ext ex_urlgetter ?ch [''urlgetter'', ''a'', ''b''])))
                 None"
    "length (Args (fst (snd (parsed ref_ext ex_urlgetter ?ch [''urlgetter'', ''a'', ''b''])))) = 2"
    unfolding built_def parsed_def by code_simp+
  have p3: "parserWrapper_Getopt ref_ext (built ref_ext ex_urlgetter ?ch)
               [''urlgetter'', ''--help'', ''a'', ''b'']
             = (Some True,
                fst (snd (parsed ref_ext ex_urlgetter ?ch [''urlgetter'', ''--help'', ''a'', ''b''])),
                None)"
    unfolding built_def parsed_def by code_simp
  have h3: "help_after ex_urlgetter
              (fst (snd (parsed ref_ext ex_urlgetter ?ch [''urlgetter'', ''--help'', ''a'', ''b''])))
              (Some True)"
    unfolding built_def parsed_def by code_simp
  show ?thesis
    using leaf_positional_policy [OF ne b p0 leaf(1)]
      leaf_positional_policy [OF ne b p1 leaf(1)]
      leaf_positional_policy [OF ne b p2 leaf(1)]
      leaf_positional_policy [OF ne b p3 leaf(1)]
      leaf(2,3,4) h0 h1 h2 h3 top
    by simp
qed

text \<open>
  The claim as stated lets every resolution that reaches a leaf end in a policy
  error or in the leaf's record; read after the step that handles the help flag,
  it still does so for every pass in which the flag has not fired. On the tree that
  \<^verbatim>\<open>prog run urlgetter --help\<close> leaves behind, \<^verbatim>\<open>prog run urlgetter\<close> fires no flag:
  the leaf takes exactly one argument and is left with none, the flat parser writes
  nothing, and resolution prints the help of the leaf and succeeds with the
  sentinel, which is neither the too-few error nor the leaf's record.
\<close>

theorem leaf_positional_policy_counterexample:
  "map_option fst (Getopt ref_ext ex_cli [''prog'', ''run'', ''urlgetter'', ''--help''])
     = Some ce_served_urlgetter
   \<and> subcommands (set_help True ex_urlgetter) = []
   \<and> cmd_pac (set_help True ex_urlgetter) = \<lparr>minArgs = 1, maxArgs = 1\<rparr>
   \<and> parsed ref_ext (set_help True ex_urlgetter)
         [ce_served_urlgetter, set_subcommands [set_help True ex_urlgetter, ex_websites] ex_run,
          set_help True ex_urlgetter] [''urlgetter'']
       = (None,
          (built ref_ext (set_help True ex_urlgetter)
             [ce_served_urlgetter, set_subcommands [set_help True ex_urlgetter, ex_websites] ex_run,
              set_help True ex_urlgetter])\<lparr>set_args := []\<rparr>,
          None)
   \<and> snd (snd (getoptall ref_ext (set_help True ex_urlgetter)
                  [ce_served_urlgetter,
                   set_subcommands [set_help True ex_urlgetter, ex_websites] ex_run,
                   set_help True ex_urlgetter] [''urlgetter'']))
       = Selected printed_help
   \<and> map_option (snd \<circ> snd) (Getopt ref_ext ce_served_urlgetter [''prog'', ''run'', ''urlgetter''])
       = Some (Selected printed_help)
   \<and> selected_options printed_help \<noteq> options ex_urlgetter"
  by code_simp

theorem no_such_subcommand_witness:
  "getoptall ref_ext ex_cli [ex_cli] [''prog'', ''bogus'', ''x'']
     = (ex_cli,
        [Stderr (''prog: no such subcommand: '' @ squote @ ''bogus'' @ squote @ ''. See ''
                 @ squote @ ''prog --help'' @ squote @ ''.'' @ nl)],
        Failed ErrNoSuchSubcommand)
   \<and> Getopt ref_ext ex_cli [''prog'', ''bogus'', ''x'']
       = Some (getoptall ref_ext ex_cli [ex_cli] [''prog'', ''bogus'', ''x''])
   \<and> dispatch ref_ext (subcommands ex_cli) [ex_cli] ''list'' [''list'', ''x''] \<noteq> None
   \<and> snd (snd (getoptall ref_ext ex_cli [ex_cli] [''prog'', ''--help'', ''bogus'']))
       = Selected printed_help"
proof -
  let ?argv = "[''prog'', ''bogus'', ''x'']"
  have top: "Getopt ref_ext ex_cli ?argv = Some (getoptall ref_ext ex_cli [ex_cli] ?argv)"
    by code_simp
  have ne: "[ex_cli] \<noteq> []"
    by simp
  have b: "CommandParser_newParserWrapper ref_ext ex_cli [ex_cli]
             = (Inr (built ref_ext ex_cli [ex_cli]), ''prog'')"
    unfolding built_def by code_simp
  have p: "parserWrapper_Getopt ref_ext (built ref_ext ex_cli [ex_cli]) ?argv
             = (None, fst (snd (parsed ref_ext ex_cli [ex_cli] ?argv)), None)"
    unfolding built_def parsed_def by code_simp
  have h: "subcommands ex_cli \<noteq> []"
    "0 < NArgs (fst (snd (parsed ref_ext ex_cli [ex_cli] ?argv)))"
    "\<not> help_after ex_cli (fst (snd (parsed ref_ext ex_cli [ex_cli] ?argv))) None"
    "hd (Args (fst (snd (parsed ref_ext ex_cli [ex_cli] ?argv)))) = ''bogus''"
    "set_help False ex_cli = ex_cli" "name (hd [ex_cli]) = ''prog''"
    unfolding built_def parsed_def by code_simp+
  have none: "\<forall>c\<in>set (subcommands ex_cli).
                name c \<noteq> hd (Args (fst (snd (parsed ref_ext ex_cli [ex_cli] ?argv))))"
    unfolding h(4) by code_simp
  let ?argl = "[''prog'', ''list'', ''x'']"
  have pl: "parserWrapper_Getopt ref_ext (built ref_ext ex_cli [ex_cli]) ?argl
             = (None, fst (snd (parsed ref_ext ex_cli [ex_cli] ?argl)), None)"
    unfolding built_def parsed_def by code_simp
  have hl: "0 < NArgs (fst (snd (parsed ref_ext ex_cli [ex_cli] ?argl)))"
    "Args (fst (snd (parsed ref_ext ex_cli [ex_cli] ?argl))) = [''list'', ''x'']"
    unfolding built_def parsed_def by code_simp+
  have some: "\<exists>c\<in>set (subcommands ex_cli).
                name c = hd (Args (fst (snd (parsed ref_ext ex_cli [ex_cli] ?argl))))"
    unfolding hl(2) by code_simp
  let ?argh = "[''prog'', ''--help'', ''bogus'']"
  have ph: "parserWrapper_Getopt ref_ext (built ref_ext ex_cli [ex_cli]) ?argh
             = (Some True, fst (snd (parsed ref_ext ex_cli [ex_cli] ?argh)), None)"
    unfolding built_def parsed_def by code_simp
  have hh: "0 < NArgs (fst (snd (parsed ref_ext ex_cli [ex_cli] ?argh)))"
    "help_after ex_cli (fst (snd (parsed ref_ext ex_cli [ex_cli] ?argh))) (Some True)"
    unfolding built_def parsed_def by code_simp+
  show ?thesis
    using no_such_subcommand [OF ne b p h(1,2)] no_such_subcommand [OF ne b pl h(1) hl(1)]
      no_such_subcommand [OF ne b ph h(1) hh(1)]
      none some h(3,4,5,6) hl(2) hh(2) top
    by simp
qed

text \<open>
  The claim as stated makes every step fail whose first positional argument names
  no child; read after the step that handles the help flag, it still does so for
  every pass in which the flag has not fired. On the tree that \<^verbatim>\<open>prog --help\<close>
  leaves behind, \<^verbatim>\<open>prog bogus\<close> fires no flag: the root is left with \<^verbatim>\<open>bogus\<close>, which
  names no child, the flat parser writes nothing, and resolution prints the help of
  the root and succeeds with the sentinel.
\<close>

theorem no_such_subcommand_counterexample:
  "map_option fst (Getopt ref_ext ex_cli [''prog'', ''--help'']) = Some ce_served_root
   \<and> subcommands ce_served_root \<noteq> []
   \<and> ''bogus'' \<notin> set (map name (subcommands ce_served_root))
   \<and> parsed ref_ext ce_served_root [ce_served_root] [''prog'', ''bogus'']
       = (None, (built ref_ext ce_served_root [ce_served_root])\<lparr>set_args := [''bogus'']\<rparr>, None)
   \<and> snd (snd (getoptall ref_ext ce_served_root [ce_served_root] [''prog'', ''bogus'']))
       = Selected printed_help
   \<and> map_option (snd \<circ> snd) (Getopt ref_ext ce_served_root [''prog'', ''bogus''])
       = Some (Selected printed_help)"
  by code_simp

subsection \<open>The help subcommand\<close>





lemma help_leaf_sel:
  "name help_leaf = ''help''" "subcommands help_leaf = []" "help' help_leaf = False"
  "options help_leaf = subcommandHelp" "cmd_pac help_leaf = newPositionalArgumentsChecker"
  by (simp_all add: help_leaf_def LeafSubcommand_def Subcommand_def)








lemma getoptall_not_built:
  assumes "chain \<noteq> []"
    and "CommandParser_newParserWrapper X p chain = (Inl err, fc)"
  shows "getoptall X p chain argv =
           (p, [Stderr (name (hd chain) @ '': internal error: '' @ Error err @ nl)], Failed err)"
proof (cases p)
  case (CommandParser d h n opts pc scs)
  have len: "\<not> length chain < 1"
    using assms(1) by (cases chain) auto
  show ?thesis
    using assms(2) len unfolding CommandParser by (simp add: Let_def)
qed



subsection \<open>Termination of resolution\<close>

text \<open>
  \<open>getoptall\<close> in terms of the fields of the node, for every outcome of building and
  parsing.
\<close>

lemma getoptall_sel:
  "getoptall X p chain argv =
     (if length chain < 1 then (p, [], Panic ''called with zero length chain'')
      else
        (case CommandParser_newParserWrapper X p chain of
           (Inl err, fc) \<Rightarrow>
             (p, [Stderr (name (hd chain) @ '': internal error: '' @ Error err @ nl)], Failed err)
         | (Inr parser0, fc) \<Rightarrow>
             (case parserWrapper_Getopt X parser0 argv of
                (w, parser, Some err) \<Rightarrow>
                  (set_help (help_after p parser w) p,
                   [Stderr (name (hd chain) @ '': '' @ Error err @ ''. See '' @ squote @ fc
                            @ '' --help'' @ squote @ ''.'' @ nl)],
                   Failed err)
              | (w, parser, None) \<Rightarrow>
                  (let p1 = set_help (help_after p parser w) p; cmd = name (hd chain) in
                   if help_after p parser w
                   then (p1, map Stdout (printHelp X p1 parser chain), Selected printed_help)
                   else if subcommands p = []
                   then (case check (cmd_pac p) parser of
                           Some err \<Rightarrow>
                             (p1, [],
                              Failed (ErrWrapped (cmd @ '': for command '' @ name p @ '': '') err))
                         | None \<Rightarrow> (p1, [], Selected (newSelectedCommand p1 (Args parser))))
                   else if NArgs parser \<le> 0
                   then (if length chain < 2
                         then (p1, map Stdout (printHelp X p1 parser chain), Selected printed_help)
                         else (p1,
                               [Stderr (cmd @ '': expected subcommand name. See '' @ squote @ fc
                                        @ '' --help'' @ squote @ ''.'' @ nl)],
                               Failed ErrExpectedSubcommandName))
                   else (case dispatch X (subcommands p) chain (hd (Args parser)) (Args parser) of
                           Some (scs', evs, r) \<Rightarrow> (set_subcommands scs' p1, evs, r)
                         | None \<Rightarrow>
                             (p1,
                              [Stderr (cmd @ '': no such subcommand: '' @ squote
                                       @ hd (Args parser) @ squote @ ''. See '' @ squote @ fc
                                       @ '' --help'' @ squote @ ''.'' @ nl)],
                              Failed ErrNoSuchSubcommand))))))"
proof (cases "length chain < 1")
  case True
  then show ?thesis by (cases p) simp
next
  case False
  then have ne: "chain \<noteq> []" by auto
  obtain res fc where b: "CommandParser_newParserWrapper X p chain = (res, fc)"
    by (cases "CommandParser_newParserWrapper X p chain") auto
  show ?thesis
  proof (cases res)
    case (Inl err)
    with b False getoptall_not_built [OF ne, of X p err fc argv] show ?thesis
      by simp
  next
    case (Inr parser0)
    obtain w parser e where g: "parserWrapper_Getopt X parser0 argv = (w, parser, e)"
      by (cases "parserWrapper_Getopt X parser0 argv") auto
    show ?thesis
    proof (cases e)
      case None
      with b Inr g False getoptall_parsed [OF ne, of X p parser0 fc argv w parser] show ?thesis
        by simp
    next
      case (Some err)
      with b Inr g False show ?thesis
        by (cases p) (simp add: Let_def)
    qed
  qed
qed

lemma parserWrapper_Getopt_ok:
  "parserWrapper_Getopt X parser0 argv = (w, parser, None) \<Longrightarrow>
   Set_Getopt X (set_options parser0) argv = (w, Inr (Args parser))"
  by (auto simp: parserWrapper_Getopt_def Let_def Args_def split: prod.splits sum.splits)

lemma nodes_self: "q \<in> set (nodes q)"
  by (cases q) simp

lemma nodes_child: "c \<in> set (subcommands q) \<Longrightarrow> node \<in> set (nodes c) \<Longrightarrow> node \<in> set (nodes q)"
  by (cases q) auto

lemma not_help_printed: "\<not> is_subcommandHelp (selected_options printed_help)"
  by (simp add: printed_help_def HasPrintedHelp_def)

lemma dispatch_selected:
  assumes "\<And>c chain argv c' evs.
             c \<in> set scs \<Longrightarrow> getoptall X c chain argv = (c', evs, Selected sc) \<Longrightarrow>
             (\<exists>node\<in>set (nodes c). options node = selected_options sc)
             \<and> (\<exists>pre. tl argv = pre @ selected_args sc)"
    and "dispatch X scs chain subcmd argv = Some (scs', evs, Selected sc)"
  shows "\<exists>c\<in>set scs. name c = subcmd
           \<and> (\<exists>node\<in>set (nodes c). options node = selected_options sc)
           \<and> (\<exists>pre. tl argv = pre @ selected_args sc)"
  using assms
proof (induction scs arbitrary: scs')
  case Nil
  then show ?case by simp
next
  case (Cons c cs)
  show ?case
  proof (cases "subcmd = name c")
    case True
    with Cons.prems(2) obtain c' where "getoptall X c (chain @ [c]) argv = (c', evs, Selected sc)"
      by (auto split: prod.splits)
    then have "(\<exists>node\<in>set (nodes c). options node = selected_options sc)
             \<and> (\<exists>pre. tl argv = pre @ selected_args sc)"
      by (rule Cons.prems(1) [rotated]) simp
    with True show ?thesis
      by auto
  next
    case False
    with Cons.prems(2) obtain cs' where "dispatch X cs chain subcmd argv = Some (cs', evs, Selected sc)"
      by (auto split: option.splits)
    then have "\<exists>c\<in>set cs. name c = subcmd
           \<and> (\<exists>node\<in>set (nodes c). options node = selected_options sc)
           \<and> (\<exists>pre. tl argv = pre @ selected_args sc)"
      by (rule Cons.IH [rotated]) (rule Cons.prems(1), simp_all)
    then show ?thesis
      by auto
  qed
qed

lemma getoptall_selected:
  assumes "leaves_suffix X"
    and "getoptall X q chain argv = (q', evs, Selected sc)"
    and "is_subcommandHelp (selected_options sc)"
  shows "(\<exists>node\<in>set (nodes q). options node = selected_options sc)
       \<and> (\<exists>pre. tl argv = pre @ selected_args sc)"
  using assms(2)
proof (induction q arbitrary: chain argv q' evs)
  case (CommandParser d h n opts pc scs)
  let ?q = "CommandParser d h n opts pc scs"
  have ne: "\<not> length chain < 1"
    using CommandParser.prems by (auto simp: getoptall_sel)
  obtain parser0 fc where b: "CommandParser_newParserWrapper X ?q chain = (Inr parser0, fc)"
    using CommandParser.prems ne
    by (cases "CommandParser_newParserWrapper X ?q chain")
      (auto simp: getoptall_sel split: sum.splits)
  obtain w parser where g: "parserWrapper_Getopt X parser0 argv = (w, parser, None)"
    using CommandParser.prems ne b
    by (cases "parserWrapper_Getopt X parser0 argv")
      (auto simp: getoptall_sel split: option.splits)
  from parserWrapper_Getopt_ok [OF g] assms(1) obtain pre0 where
    pre0: "tl argv = pre0 @ Args parser"
    unfolding leaves_suffix_def by blast
  have nohelp: "\<not> help_after ?q parser w"
    using CommandParser.prems ne b g assms(3) not_help_printed
    by (auto simp: getoptall_sel Let_def split: if_splits)
  show ?case
  proof (cases "scs = []")
    case True
    with CommandParser.prems ne b g nohelp
    have "sc = newSelectedCommand (set_help False ?q) (Args parser)"
      by (auto simp: getoptall_sel Let_def split: option.splits)
    with pre0 show ?thesis
      by (auto simp: newSelectedCommand_def)
  next
    case False
    have pos: "\<not> NArgs parser \<le> 0"
      using CommandParser.prems ne b g nohelp False assms(3) not_help_printed
      by (auto simp: getoptall_sel Let_def split: if_splits)
    obtain scs' where d: "dispatch X scs chain (hd (Args parser)) (Args parser)
                            = Some (scs', evs, Selected sc)"
      using CommandParser.prems ne b g nohelp False pos
      by (auto simp: getoptall_sel Let_def split: option.splits)
    have "\<exists>c\<in>set scs. name c = hd (Args parser)
           \<and> (\<exists>node\<in>set (nodes c). options node = selected_options sc)
           \<and> (\<exists>pre. tl (Args parser) = pre @ selected_args sc)"
      using CommandParser.IH d by (intro dispatch_selected) auto
    then obtain c node pre where c: "c \<in> set scs" "node \<in> set (nodes c)"
      "options node = selected_options sc" "tl (Args parser) = pre @ selected_args sc"
      by blast
    have "Args parser \<noteq> []"
      using pos by (simp add: NArgs_def Args_def)
    then have "Args parser = hd (Args parser) # pre @ selected_args sc"
      using c(4) by (cases "Args parser") auto
    with pre0 have "tl argv = (pre0 @ hd (Args parser) # pre) @ selected_args sc"
      by simp
    with c show ?thesis
      by (metis (no_types, lifting) nodes_child CommandParser.sel(6))
  qed
qed

lemma shape_sel:
  "name (shape q) = name q" "options (shape q) = options q"
  "subcommands (shape q) = map shape (subcommands q)"
  by (cases q; simp)+

lemma shape_set_help: "shape (set_help b q) = shape q"
  by (cases q) (simp add: set_help_def)

lemma shape_set_subcommands:
  "map shape scs' = map shape (subcommands q) \<Longrightarrow> shape (set_subcommands scs' q) = shape q"
  by (cases q) (simp add: set_subcommands_def)

lemma nodes_shape: "map options (nodes (shape q)) = map options (nodes q)"
proof (induction q)
  case (CommandParser d h n opts pc scs)
  have "map (\<lambda>c. map options (nodes (shape c))) scs = map (\<lambda>c. map options (nodes c)) scs"
    by (rule map_cong) (simp_all add: CommandParser.IH)
  then have "concat (map (\<lambda>c. map options (nodes (shape c))) scs)
               = concat (map (\<lambda>c. map options (nodes c)) scs)"
    by (rule arg_cong)
  then show ?case
    by (simp add: map_concat comp_def)
qed

lemma dispatch_shape:
  assumes "\<And>c chain argv. c \<in> set scs \<Longrightarrow> shape (fst (getoptall X c chain argv)) = shape c"
    and "dispatch X scs chain subcmd argv = Some (scs', evs, r)"
  shows "map shape scs' = map shape scs"
  using assms
proof (induction scs arbitrary: scs')
  case Nil
  then show ?case by simp
next
  case (Cons c cs)
  show ?case
  proof (cases "subcmd = name c")
    case True
    with Cons.prems(2) obtain c' where
      "getoptall X c (chain @ [c]) argv = (c', evs, r)" "scs' = c' # cs"
      by (auto split: prod.splits)
    with Cons.prems(1) [of c "chain @ [c]" argv] show ?thesis
      by simp
  next
    case False
    with Cons.prems(2) obtain cs' where
      d: "dispatch X cs chain subcmd argv = Some (cs', evs, r)" "scs' = c # cs'"
      by (auto split: option.splits)
    from d(1) have "map shape cs' = map shape cs"
      by (rule Cons.IH [rotated]) (rule Cons.prems(1), simp)
    with d(2) show ?thesis
      by simp
  qed
qed

lemma getoptall_shape: "shape (fst (getoptall X q chain argv)) = shape q"
proof (induction q arbitrary: chain argv)
  case (CommandParser d h n opts pc scs)
  let ?q = "CommandParser d h n opts pc scs"
  have disp: "map shape scs' = map shape (subcommands (set_help b ?q))"
    if "dispatch X scs chain subcmd argv' = Some (scs', evs, r)" for scs' subcmd argv' evs r b
  proof -
    have "map shape scs' = map shape scs"
      using _ that by (rule dispatch_shape) (rule CommandParser.IH)
    then show ?thesis
      by simp
  qed
  show ?case
    by (auto simp: getoptall_sel [of X ?q] Let_def shape_set_help shape_set_subcommands
        dest: disp split: prod.splits sum.splits option.splits)
qed

lemma getoptall_selected_child:
  assumes "leaves_suffix X"
    and "getoptall X q chain argv = (q', evs, Selected sc)"
    and "is_subcommandHelp (selected_options sc)"
    and "\<not> is_subcommandHelp (options q)"
  shows "\<exists>c\<in>set (subcommands q).
           (\<exists>node\<in>set (nodes c). options node = selected_options sc)
           \<and> (\<exists>pre0 pre. tl argv = pre0 @ name c # pre @ selected_args sc)"
proof -
  have ne: "\<not> length chain < 1"
    using assms(2) by (auto simp: getoptall_sel)
  obtain parser0 fc where b: "CommandParser_newParserWrapper X q chain = (Inr parser0, fc)"
    using assms(2) ne
    by (cases "CommandParser_newParserWrapper X q chain")
      (auto simp: getoptall_sel split: sum.splits)
  obtain w parser where g: "parserWrapper_Getopt X parser0 argv = (w, parser, None)"
    using assms(2) ne b
    by (cases "parserWrapper_Getopt X parser0 argv")
      (auto simp: getoptall_sel split: option.splits)
  from parserWrapper_Getopt_ok [OF g] assms(1) obtain pre0 where
    pre0: "tl argv = pre0 @ Args parser"
    unfolding leaves_suffix_def by blast
  have nohelp: "\<not> help_after q parser w"
    using assms(2,3) ne b g not_help_printed
    by (auto simp: getoptall_sel Let_def split: if_splits)
  have children: "subcommands q \<noteq> []"
    using assms(2,3,4) ne b g nohelp
    by (auto simp: getoptall_sel Let_def newSelectedCommand_def split: option.splits if_splits)
  have pos: "\<not> NArgs parser \<le> 0"
    using assms(2,3) ne b g nohelp children not_help_printed
    by (auto simp: getoptall_sel Let_def split: if_splits)
  obtain scs' where d: "dispatch X (subcommands q) chain (hd (Args parser)) (Args parser)
                          = Some (scs', evs, Selected sc)"
    using assms(2) ne b g nohelp children pos
    by (auto simp: getoptall_sel Let_def split: option.splits)
  have "\<exists>c\<in>set (subcommands q). name c = hd (Args parser)
         \<and> (\<exists>node\<in>set (nodes c). options node = selected_options sc)
         \<and> (\<exists>pre. tl (Args parser) = pre @ selected_args sc)"
    using _ d
  proof (rule dispatch_selected)
    fix c chain' argv' c' evs'
    assume "getoptall X c chain' argv' = (c', evs', Selected sc)"
    with assms(1) show "(\<exists>node\<in>set (nodes c). options node = selected_options sc)
        \<and> (\<exists>pre. tl argv' = pre @ selected_args sc)"
      using assms(3) by (rule getoptall_selected)
  qed
  then obtain c node pre where c: "c \<in> set (subcommands q)" "name c = hd (Args parser)"
    "node \<in> set (nodes c)" "options node = selected_options sc"
    "tl (Args parser) = pre @ selected_args sc"
    by blast
  have "Args parser \<noteq> []"
    using pos by (simp add: NArgs_def Args_def)
  then have "Args parser = name c # pre @ selected_args sc"
    using c(2,5) by (cases "Args parser") auto
  with pre0 have "tl argv = pre0 @ name c # pre @ selected_args sc"
    by simp
  with c show ?thesis
    by blast
qed

lemma ref_scan_suffix:
  "ref_scan opts argv w seen = (w', Inr rest) \<Longrightarrow> \<exists>pre. argv = pre @ rest"
proof (induction opts argv w seen rule: ref_scan.induct)
  case (1 opts w seen)
  then show ?case
    by (auto simp: ref_finish_def split: option.splits)
next
  case (2 opts a rest0 w seen)
  show ?case
  proof (cases "operand a")
    case True
    with "2.prems" show ?thesis
      by (auto simp: ref_finish_def split: option.splits)
  next
    case op: False
    show ?thesis
    proof (cases "a = ''--''")
      case True
      with "2.prems" op have "rest = rest0"
        by (auto simp: ref_finish_def split: option.splits)
      then show ?thesis
        by auto
    next
      case False
      with "2.prems" op obtain o' where o': "find_option opts a = Some o'"
        by (auto split: option.splits)
      let ?w = "if bound o' = HelpCell then Some True else w"
      show ?thesis
      proof (cases "flag o'")
        case True
        with "2.prems" op False o' have "ref_scan opts rest0 ?w (long o' # seen) = (w', Inr rest)"
          by (simp add: Let_def)
        from "2.IH"(1) [OF op False o' refl True this] show ?thesis
          by (metis append_Cons)
      next
        case nf: False
        with "2.prems" op False o' obtain v rest1 where r: "rest0 = v # rest1"
          "ref_scan opts rest1 ?w (long o' # seen) = (w', Inr rest)"
          by (cases rest0) (auto simp: Let_def)
        from "2.IH"(2) [OF op False o' refl nf r(1) r(2)] r(1) show ?thesis
          by (metis append_Cons)
      qed
    qed
  qed
qed

lemma leaves_suffix_ref_ext: "leaves_suffix ref_ext"
  unfolding leaves_suffix_def
proof (intro allI impI)
  fix opts argv w rest
  assume a: "Set_Getopt ref_ext opts argv = (w, Inr rest)"
  show "\<exists>pre. tl argv = pre @ rest"
  proof (cases argv)
    case Nil
    with a show ?thesis
      by (auto simp: ref_ext_def ref_Getopt_def ref_finish_def split: option.splits)
  next
    case (Cons prog rest0)
    with a have "ref_scan opts rest0 None [] = (w, Inr rest)"
      by (simp add: ref_ext_def ref_Getopt_def)
    from ref_scan_suffix [OF this] Cons show ?thesis
      by simp
  qed
qed

lemma Command_children:
  "set (subcommands (Command program descr opts scs)) \<subseteq> insert help_leaf (set scs)"
  by (auto simp: Command_def Let_def Subcommand_def help_leaf_def)

lemma Command_options: "options (Command program descr opts scs) = opts"
  by (simp add: Command_def Let_def Subcommand_def)

text \<open>
  When the internal help leaf is selected, one name at least was consumed on the way
  to it, and that name is \<open>help\<close>: the arguments of the selected command hold fewer
  elements other than \<^verbatim>\<open>--help\<close> than the arguments after the program name do.
\<close>

lemma help_selected_decreases:
  assumes "leaves_suffix X"
    and "\<forall>node\<in>set (concat (map nodes scs)). \<not> is_subcommandHelp (options node)"
    and "\<not> is_subcommandHelp opts"
    and "shape p = shape (Command program descr opts scs)"
    and "getoptall X p chain argv = (p', evs, Selected sc)"
    and "is_subcommandHelp (selected_options sc)"
  shows "length (filter (\<lambda>a. a \<noteq> ''--help'') (selected_args sc))
           < length (filter (\<lambda>a. a \<noteq> ''--help'') (tl argv))"
proof -
  let ?p0 = "Command program descr opts scs"
  have "options p = options (shape p)"
    by (simp add: shape_sel)
  also have "\<dots> = opts"
    using assms(4) by (simp add: shape_sel Command_options)
  finally have "\<not> is_subcommandHelp (options p)"
    using assms(3) by simp
  with assms(1,5,6) obtain c node pre0 pre where
    c: "c \<in> set (subcommands p)" "node \<in> set (nodes c)" "options node = selected_options sc"
      "tl argv = pre0 @ name c # pre @ selected_args sc"
    using getoptall_selected_child by blast
  have "shape c \<in> set (subcommands (shape p))"
    using c(1) by (simp add: shape_sel)
  then have "shape c \<in> shape ` set (subcommands ?p0)"
    using assms(4) by (simp add: shape_sel)
  then obtain c0 where c0: "c0 \<in> set (subcommands ?p0)" "shape c0 = shape c"
    by auto
  have "options node \<in> set (map options (nodes (shape c)))"
    using c(2) by (simp add: nodes_shape)
  then have "options node \<in> set (map options (nodes c0))"
    using c0(2) by (metis nodes_shape)
  then obtain node0 where node0: "node0 \<in> set (nodes c0)" "options node0 = options node"
    by auto
  have "c0 = help_leaf"
  proof (rule ccontr)
    assume "c0 \<noteq> help_leaf"
    with c0(1) Command_children [of program descr opts scs] have "c0 \<in> set scs"
      by auto
    with node0(1) have "node0 \<in> set (concat (map nodes scs))"
      by auto
    with assms(2) have "\<not> is_subcommandHelp (options node0)"
      by blast
    with node0(2) c(3) assms(6) show False
      by simp
  qed
  then have "name c = ''help''"
    using c0(2) help_leaf_sel(1) by (metis shape_sel(1))
  with c(4) show ?thesis
    by simp
qed

text \<open>
  \<open>Getopt\<close> returns on every argument vector, for a tree built by \<open>Command\<close> from
  caller records (which cannot be of the unexported type \<^verbatim>\<open>subcommandHelp\<close>), in
  whatever state earlier calls have left its help cells, provided the flat parser
  returns as positional arguments a suffix of the arguments after the program name:
  each rewrite of the argument vector lowers the number of its elements other than
  \<^verbatim>\<open>--help\<close>.
\<close>

lemma Getopt_returns:
  assumes "leaves_suffix X"
    and "\<forall>node\<in>set (concat (map nodes scs)). \<not> is_subcommandHelp (options node)"
    and "\<not> is_subcommandHelp opts"
    and "shape p = shape (Command program descr opts scs)"
  shows "\<exists>r. Getopt X p argv = Some r"
  using assms(4)
proof (induction "length (filter (\<lambda>a. a \<noteq> ''--help'') (tl argv))" arbitrary: argv p
    rule: less_induct)
  case less
  show ?case
  proof (cases "length argv < 1")
    case True
    then show ?thesis
      by (subst Getopt.simps) simp
  next
    case False
    obtain p' evs r where g: "getoptall X p [p] argv = (p', evs, r)"
      by (cases "getoptall X p [p] argv") auto
    have shape': "shape p' = shape (Command program descr opts scs)"
      using getoptall_shape [of X p "[p]" argv] g less.prems by simp
    show ?thesis
    proof (cases r)
      case (Panic msg)
      with False g show ?thesis
        by (subst Getopt.simps) simp
    next
      case (Failed err)
      with False g show ?thesis
        by (subst Getopt.simps) simp
    next
      case (Selected sc)
      show ?thesis
      proof (cases "is_subcommandHelp (selected_options sc)")
        case nh: False
        with False g Selected show ?thesis
          by (subst Getopt.simps) simp
      next
        case True
        let ?v = "([hd argv] @ selected_args sc) @ [''--help'']"
        have "length (filter (\<lambda>a. a \<noteq> ''--help'') (selected_args sc))
                < length (filter (\<lambda>a. a \<noteq> ''--help'') (tl argv))"
          using assms(1,2,3) less.prems g [unfolded Selected] True
          by (rule help_selected_decreases)
        then have "length (filter (\<lambda>a. a \<noteq> ''--help'') (tl ?v))
                < length (filter (\<lambda>a. a \<noteq> ''--help'') (tl argv))"
          by simp
        from less.hyps [OF this shape'] obtain r' where "Getopt X p' ?v = Some r'"
          by blast
        with False g Selected True show ?thesis
          by (subst Getopt.simps) (auto simp: after_events_def split: prod.splits)
      qed
    qed
  qed
qed

lemma Getopt_returns_ex_cli: "\<exists>r. Getopt ref_ext ex_cli argv = Some r"
proof -
  have "\<forall>node\<in>set (concat (map nodes [ex_run, ex_list])). \<not> is_subcommandHelp (options node)"
    by code_simp
  moreover have "\<not> is_subcommandHelp ex_global"
    by code_simp
  ultimately show ?thesis
    unfolding ex_cli_def using leaves_suffix_ref_ext by (intro Getopt_returns) auto
qed

subsection \<open>The help rewrite\<close>




end
